theory Spec2Isabelle
  imports Complex_Main
begin

section \<open>Floating-point values\<close>

text \<open>
  The program computes with numpy \<open>float64\<close> values. They are modelled without rounding:
  a finite value is a real number, and the three special values of the format are kept,
  because the code relies on them (a division by zero is not an exception in numpy, it
  yields an infinity or a NaN). Rounding, overflow, underflow and the sign of a
  floating-point zero are not modelled: there is one zero, and it behaves as \<open>+0.0\<close>.
\<close>

datatype npfloat = Fin real | PInf | NInf | NaN

text \<open>\<open>a >= b\<close>: every comparison with a NaN is false.\<close>

fun np_ge :: "npfloat \<Rightarrow> npfloat \<Rightarrow> bool" where
  "np_ge NaN b = False"
| "np_ge a NaN = False"
| "np_ge PInf b = True"
| "np_ge a NInf = True"
| "np_ge (Fin a) (Fin b) = (b \<le> a)"
| "np_ge (Fin a) PInf = False"
| "np_ge NInf b = False"

text \<open>\<open>a == b\<close>: a NaN is equal to nothing, not even to itself.\<close>

definition np_eq :: "npfloat \<Rightarrow> npfloat \<Rightarrow> bool" where
  "np_eq a b = (a \<noteq> NaN \<and> b \<noteq> NaN \<and> a = b)"

text \<open>\<open>np.maximum(a, b)\<close>: the larger of the two, a NaN if either is one.\<close>

definition np_maximum :: "npfloat \<Rightarrow> npfloat \<Rightarrow> npfloat" where
  "np_maximum a b = (if a = NaN \<or> b = NaN then NaN else if np_ge a b then a else b)"

text \<open>\<open>a / b\<close> on \<open>float64\<close>: numpy warns on a zero divisor and returns a special value.\<close>

fun np_divide :: "npfloat \<Rightarrow> npfloat \<Rightarrow> npfloat" where
  "np_divide NaN b = NaN"
| "np_divide a NaN = NaN"
| "np_divide (Fin a) (Fin b) =
     (if b \<noteq> 0 then Fin (a / b)
      else if 0 < a then PInf else if a < 0 then NInf else NaN)"
| "np_divide (Fin a) PInf = Fin 0"
| "np_divide (Fin a) NInf = Fin 0"
| "np_divide PInf (Fin b) = (if 0 \<le> b then PInf else NInf)"
| "np_divide NInf (Fin b) = (if 0 \<le> b then NInf else PInf)"
| "np_divide PInf PInf = NaN"
| "np_divide PInf NInf = NaN"
| "np_divide NInf PInf = NaN"
| "np_divide NInf NInf = NaN"

fun np_add :: "npfloat \<Rightarrow> npfloat \<Rightarrow> npfloat" where
  "np_add NaN b = NaN"
| "np_add a NaN = NaN"
| "np_add (Fin a) (Fin b) = Fin (a + b)"
| "np_add PInf NInf = NaN"
| "np_add NInf PInf = NaN"
| "np_add PInf b = PInf"
| "np_add a PInf = PInf"
| "np_add NInf b = NInf"
| "np_add a NInf = NInf"

fun np_negative :: "npfloat \<Rightarrow> npfloat" where
  "np_negative (Fin a) = Fin (- a)"
| "np_negative PInf = NInf"
| "np_negative NInf = PInf"
| "np_negative NaN = NaN"

definition np_subtract :: "npfloat \<Rightarrow> npfloat \<Rightarrow> npfloat" where
  "np_subtract a b = np_add a (np_negative b)"

text \<open>\<open>a ** 2\<close>.\<close>

fun np_square :: "npfloat \<Rightarrow> npfloat" where
  "np_square (Fin a) = Fin (a * a)"
| "np_square PInf = PInf"
| "np_square NInf = PInf"
| "np_square NaN = NaN"

text \<open>\<open>np.sqrt(a)\<close>: a NaN (with a warning) below zero.\<close>

fun np_sqrt :: "npfloat \<Rightarrow> npfloat" where
  "np_sqrt (Fin a) = (if a < 0 then NaN else Fin (sqrt a))"
| "np_sqrt PInf = PInf"
| "np_sqrt NInf = NaN"
| "np_sqrt NaN = NaN"

text \<open>\<open>np.sum\<close> of an array of floats; the sum of no element is \<open>0.0\<close>.\<close>

definition np_sum :: "npfloat list \<Rightarrow> npfloat" where
  "np_sum xs = foldl np_add (Fin 0) xs"

fun np_multiply :: "npfloat \<Rightarrow> npfloat \<Rightarrow> npfloat" where
  "np_multiply NaN b = NaN"
| "np_multiply a NaN = NaN"
| "np_multiply (Fin a) (Fin b) = Fin (a * b)"
| "np_multiply (Fin a) PInf = (if 0 < a then PInf else if a < 0 then NInf else NaN)"
| "np_multiply (Fin a) NInf = (if 0 < a then NInf else if a < 0 then PInf else NaN)"
| "np_multiply PInf (Fin b) = (if 0 < b then PInf else if b < 0 then NInf else NaN)"
| "np_multiply NInf (Fin b) = (if 0 < b then NInf else if b < 0 then PInf else NaN)"
| "np_multiply PInf PInf = PInf"
| "np_multiply PInf NInf = NInf"
| "np_multiply NInf PInf = NInf"
| "np_multiply NInf NInf = PInf"

text \<open>\<open>np.arctan2(y, x)\<close>, the angle of the point \<open>(x, y)\<close> in \<open>(-pi, pi]\<close>.\<close>

fun np_arctan2 :: "npfloat \<Rightarrow> npfloat \<Rightarrow> npfloat" where
  "np_arctan2 NaN x = NaN"
| "np_arctan2 y NaN = NaN"
| "np_arctan2 (Fin y) (Fin x) =
     Fin (if 0 < x then arctan (y / x)
          else if x < 0 then (if 0 \<le> y then arctan (y / x) + pi else arctan (y / x) - pi)
          else if 0 < y then pi / 2 else if y < 0 then - (pi / 2) else 0)"
| "np_arctan2 (Fin y) PInf = Fin 0"
| "np_arctan2 (Fin y) NInf = (if 0 \<le> y then Fin pi else Fin (- pi))"
| "np_arctan2 PInf (Fin x) = Fin (pi / 2)"
| "np_arctan2 NInf (Fin x) = Fin (- (pi / 2))"
| "np_arctan2 PInf PInf = Fin (pi / 4)"
| "np_arctan2 PInf NInf = Fin (3 * pi / 4)"
| "np_arctan2 NInf PInf = Fin (- (pi / 4))"
| "np_arctan2 NInf NInf = Fin (- (3 * pi / 4))"

section \<open>The switch (besemer\_core.py)\<close>

text \<open>
  \<open>BesemerSwitch.__init__\<close> stores its three arguments as they are; nothing is checked.
\<close>

record BesemerSwitch =
  beta :: npfloat
  threshold :: npfloat
  epsilon :: npfloat

text \<open>The constructor's default arguments: \<open>beta=296, threshold=1.0, epsilon=1e-10\<close>.\<close>

definition BesemerSwitch_init :: "npfloat option \<Rightarrow> npfloat option \<Rightarrow> npfloat option \<Rightarrow> BesemerSwitch" where
  "BesemerSwitch_init b t e =
     \<lparr> beta = (case b of None \<Rightarrow> Fin 296 | Some x \<Rightarrow> x),
       threshold = (case t of None \<Rightarrow> Fin 1 | Some x \<Rightarrow> x),
       epsilon = (case e of None \<Rightarrow> Fin (1 / 10 ^ 10) | Some x \<Rightarrow> x) \<rparr>"

text \<open>
  \<open>BesemerSwitch.__call__\<close> on one residual. \<open>np.where(amplified >= threshold, 1, 0)\<close>
  yields the integer 1 or 0.
\<close>

definition BesemerSwitch_call :: "BesemerSwitch \<Rightarrow> npfloat \<Rightarrow> int" where
  "BesemerSwitch_call self residual =
     (let residual_safe = np_maximum residual (epsilon self);
          amplified = np_divide (beta self) residual_safe
      in if np_ge amplified (threshold self) then 1 else 0)"

definition resonance_strength :: "BesemerSwitch \<Rightarrow> npfloat \<Rightarrow> npfloat" where
  "resonance_strength self residual =
     (let residual_safe = np_maximum residual (epsilon self)
      in np_divide (beta self) residual_safe)"

text \<open>
  Given an array, \<open>np.maximum\<close>, \<open>/\<close>, \<open>>=\<close> and \<open>np.where\<close> all work element by element
  and keep the shape, so both methods map the scalar rule over the array.
\<close>

definition BesemerSwitch_call_array :: "BesemerSwitch \<Rightarrow> npfloat list \<Rightarrow> int list" where
  "BesemerSwitch_call_array self residual = map (BesemerSwitch_call self) residual"

definition resonance_strength_array :: "BesemerSwitch \<Rightarrow> npfloat list \<Rightarrow> npfloat list" where
  "resonance_strength_array self residual = map (resonance_strength self) residual"

section \<open>Errors and arrays\<close>

text \<open>
  The exceptions that can leave the functions modelled here. \<open>Raised k\<close> stands for an
  exception of the caller-supplied model function; the others are raised by numpy or by
  the scanner itself.
\<close>

datatype error =
    ValueError_broadcast          \<comment> \<open>operands could not be broadcast together\<close>
  | ValueError_num_samples        \<comment> \<open>\<open>np.linspace\<close>: number of samples must be non-negative\<close>
  | ValueError_no_scan            \<comment> \<open>\<open>raise ValueError\<close> of the scanner: run \<open>scan_2d()\<close> first\<close>
  | IndexError_boolean_index      \<comment> \<open>boolean index did not match the indexed array\<close>
  | TypeError_unpack_None         \<comment> \<open>unpacking \<open>None\<close> into two names\<close>
  | Raised nat

text \<open>
  Broadcasting of two one-dimensional arrays: the lengths must be equal, or one of them
  must be 1, and then that array is repeated to the other's length.
\<close>

definition broadcast_shape :: "nat \<Rightarrow> nat \<Rightarrow> error + nat" where
  "broadcast_shape n m =
     (if n = m then Inr n else if n = 1 then Inr m else if m = 1 then Inr n
      else Inl ValueError_broadcast)"

definition broadcast_to :: "nat \<Rightarrow> 'a list \<Rightarrow> 'a list" where
  "broadcast_to n xs = (case xs of [x] \<Rightarrow> replicate n x | _ \<Rightarrow> xs)"

definition np_binary ::
  "(npfloat \<Rightarrow> npfloat \<Rightarrow> npfloat) \<Rightarrow> npfloat list \<Rightarrow> npfloat list \<Rightarrow> error + npfloat list" where
  "np_binary f xs ys =
     (case broadcast_shape (length xs) (length ys) of
        Inl e \<Rightarrow> Inl e
      | Inr n \<Rightarrow> Inr (map2 f (broadcast_to n xs) (broadcast_to n ys)))"

text \<open>
  A two-dimensional array: its shape (rows, columns) and its rows. The shape is kept
  beside the rows because an array of no rows still has a number of columns.
\<close>

record 'a array2 =
  shape :: "nat \<times> nat"
  cells :: "'a list list"

definition array2_size :: "'a array2 \<Rightarrow> nat" where
  "array2_size a = fst (shape a) * snd (shape a)"

definition get2 :: "'a array2 \<Rightarrow> nat \<Rightarrow> nat \<Rightarrow> 'a" where
  "get2 a j i = cells a ! j ! i"

definition set2 :: "'a array2 \<Rightarrow> nat \<Rightarrow> nat \<Rightarrow> 'a \<Rightarrow> 'a array2" where
  "set2 a j i v = a\<lparr>cells := (cells a)[j := (cells a ! j)[i := v]]\<rparr>"

definition array2_map :: "('a \<Rightarrow> 'b) \<Rightarrow> 'a array2 \<Rightarrow> 'b array2" where
  "array2_map f a = \<lparr>shape = shape a, cells = map (map f) (cells a)\<rparr>"

text \<open>\<open>np.linspace(start, stop, num)\<close>, end point included.\<close>

definition np_linspace :: "real \<Rightarrow> real \<Rightarrow> int \<Rightarrow> error + real list" where
  "np_linspace start stop num =
     (if num < 0 then Inl ValueError_num_samples
      else Inr (let n = nat num
                in if n = 1 then [start]
                   else map (\<lambda>i. start + real i * ((stop - start) / real (n - 1))) [0..<n]))"

definition np_zeros :: "nat \<Rightarrow> npfloat list" where
  "np_zeros n = replicate n (Fin 0)"

text \<open>
  \<open>np.meshgrid(x, y)\<close> with its default indexing \<open>'xy'\<close>: both results have \<open>len(y)\<close>
  rows and \<open>len(x)\<close> columns, the first repeats \<open>x\<close> in every row, the second repeats
  \<open>y\<close> in every column.
\<close>

definition np_meshgrid :: "'a list \<Rightarrow> 'a list \<Rightarrow> 'a array2 \<times> 'a array2" where
  "np_meshgrid x y =
     (\<lparr>shape = (length y, length x), cells = replicate (length y) x\<rparr>,
      \<lparr>shape = (length y, length x), cells = map (\<lambda>v. replicate (length x) v) y\<rparr>)"

definition np_zeros_like :: "'a array2 \<Rightarrow> npfloat array2" where
  "np_zeros_like a =
     \<lparr>shape = shape a, cells = replicate (fst (shape a)) (replicate (snd (shape a)) (Fin 0))\<rparr>"

text \<open>\<open>a[msk]\<close> with a boolean mask: the selected elements in row-major order.\<close>

definition boolean_index :: "'a array2 \<Rightarrow> bool array2 \<Rightarrow> error + 'a list" where
  "boolean_index a msk =
     (if shape a \<noteq> shape msk then Inl IndexError_boolean_index
      else Inr (map fst (filter snd (zip (concat (cells a)) (concat (cells msk))))))"

text \<open>\<open>a == 1\<close> on an array of floats.\<close>

definition array2_eq1 :: "npfloat array2 \<Rightarrow> bool array2" where
  "array2_eq1 a = array2_map (\<lambda>v. np_eq v (Fin 1)) a"

definition np_any :: "bool array2 \<Rightarrow> bool" where
  "np_any msk = list_ex (\<lambda>b. b) (concat (cells msk))"

text \<open>\<open>np.sum\<close> of a boolean array counts its true entries.\<close>

definition np_count :: "bool array2 \<Rightarrow> nat" where
  "np_count msk = length (filter (\<lambda>b. b) (concat (cells msk)))"

text \<open>\<open>np.mean\<close> and \<open>np.std\<close> of finite values; of no value at all they are NaN.\<close>

definition np_mean :: "real list \<Rightarrow> npfloat" where
  "np_mean xs = (if xs = [] then NaN else Fin (sum_list xs / real (length xs)))"

definition np_std :: "real list \<Rightarrow> npfloat" where
  "np_std xs =
     (if xs = [] then NaN
      else let m = sum_list xs / real (length xs)
           in Fin (sqrt (sum_list (map (\<lambda>x. (x - m) * (x - m)) xs) / real (length xs))))"

section \<open>Residuals (besemer\_core.py)\<close>

text \<open>
  \<open>data\<close>, \<open>model\<close> and \<open>errors\<close> are one-dimensional numpy arrays; \<open>data - model\<close> and
  \<open>residual / errors\<close> broadcast. (A scalar model value, as in \<open>test_scanner\<close>, behaves
  as an array of one element.)
\<close>

definition compute_chi_squared ::
  "npfloat list \<Rightarrow> npfloat list \<Rightarrow> npfloat list option \<Rightarrow> error + npfloat" where
  "compute_chi_squared data model errors =
     (case np_binary np_subtract data model of
        Inl e \<Rightarrow> Inl e
      | Inr residual \<Rightarrow>
          (case (case errors of None \<Rightarrow> Inr residual
                 | Some errs \<Rightarrow> np_binary np_divide residual errs) of
             Inl e \<Rightarrow> Inl e
           | Inr residual \<Rightarrow> Inr (np_sum (map np_square residual))))"

definition compute_residual_norm ::
  "npfloat list \<Rightarrow> npfloat list \<Rightarrow> npfloat list option \<Rightarrow> error + npfloat" where
  "compute_residual_norm data model errors =
     (case np_binary np_subtract data model of
        Inl e \<Rightarrow> Inl e
      | Inr residual \<Rightarrow>
          (case (case errors of None \<Rightarrow> Inr residual
                 | Some errs \<Rightarrow> np_binary np_divide residual errs) of
             Inl e \<Rightarrow> Inl e
           | Inr residual \<Rightarrow> Inr (np_sqrt (np_sum (map np_square residual)))))"

section \<open>The grid scanner (scanner.py)\<close>

text \<open>
  The model function is supplied by the caller. It receives the parameters of one grid
  point (one for \<open>scan_1d\<close>, two for \<open>scan_2d\<close>) and returns a prediction or raises.
\<close>

record LatencyFreeScanner =
  model_func :: "real list \<Rightarrow> error + npfloat list"
  data :: "npfloat list"
  errors :: "npfloat list option"
  switch :: BesemerSwitch
  grid_points :: "(real array2 \<times> real array2) option"
  switch_values :: "npfloat array2 option"
  resonance_values :: "npfloat array2 option"

text \<open>\<open>__init__(model_func, data, errors=None, beta=296, threshold=1.0)\<close>.\<close>

definition LatencyFreeScanner_init ::
  "(real list \<Rightarrow> error + npfloat list) \<Rightarrow> npfloat list \<Rightarrow> npfloat list option \<Rightarrow>
   npfloat option \<Rightarrow> npfloat option \<Rightarrow> LatencyFreeScanner" where
  "LatencyFreeScanner_init f d errs b t =
     \<lparr> model_func = f, data = d, errors = errs,
       switch = BesemerSwitch_init
                  (Some (case b of None \<Rightarrow> Fin 296 | Some x \<Rightarrow> x))
                  (Some (case t of None \<Rightarrow> Fin 1 | Some x \<Rightarrow> x)) None,
       grid_points = None, switch_values = None, resonance_values = None \<rparr>"

text \<open>
  Both scans return three things: the outcome (the exception, or the arrays), the scanner
  object after the call, and the calls made to the model function, in order. The last is
  the trace of the only effect the loops have outside the scanner. (The progress messages
  that \<open>scan_2d\<close> prints are left out.)

  The loop of \<open>scan_1d\<close> over \<open>enumerate(params)\<close>. An exception of the model function or
  of \<open>compute_residual_norm\<close> leaves the loop at once. The result of the switch, an
  integer, is stored in an array of floats.
\<close>

fun scan_1d_loop ::
  "LatencyFreeScanner \<Rightarrow> (nat \<times> real) list \<Rightarrow> npfloat list \<Rightarrow> npfloat list \<Rightarrow> real list list \<Rightarrow>
   (error + npfloat list \<times> npfloat list) \<times> real list list" where
  "scan_1d_loop self [] switches resonances calls = (Inr (switches, resonances), calls)"
| "scan_1d_loop self ((i, param) # rest) switches resonances calls =
     (case model_func self [param] of
        Inl e \<Rightarrow> (Inl e, calls @ [[param]])
      | Inr model \<Rightarrow>
          (case compute_residual_norm (data self) model (errors self) of
             Inl e \<Rightarrow> (Inl e, calls @ [[param]])
           | Inr residual \<Rightarrow>
               scan_1d_loop self rest
                 (switches[i := Fin (of_int (BesemerSwitch_call (switch self) residual))])
                 (resonances[i := resonance_strength (switch self) residual])
                 (calls @ [[param]])))"

text \<open>\<open>scan_1d(param_range, n_points)\<close>; \<open>n_points\<close> is 1000 when the caller omits it.\<close>

definition scan_1d ::
  "LatencyFreeScanner \<Rightarrow> real \<times> real \<Rightarrow> int \<Rightarrow>
   (error + real list \<times> npfloat list \<times> npfloat list) \<times> LatencyFreeScanner \<times> real list list" where
  "scan_1d self param_range n_points =
     (case np_linspace (fst param_range) (snd param_range) n_points of
        Inl e \<Rightarrow> (Inl e, self, [])
      | Inr params \<Rightarrow>
          (case scan_1d_loop self (List.enumerate 0 params)
                  (np_zeros (nat n_points)) (np_zeros (nat n_points)) [] of
             (Inl e, calls) \<Rightarrow> (Inl e, self, calls)
           | (Inr (switches, resonances), calls) \<Rightarrow>
               (Inr (params, switches, resonances), self, calls)))"

text \<open>
  The inner loop of \<open>scan_2d\<close>, \<open>for j in range(n_points[1])\<close>, at a fixed \<open>i\<close>. The
  arrays are read and written at \<open>[j, i]\<close>; \<open>i\<close> and \<open>j\<close> range over the columns and rows
  the arrays have, so no access is out of range.
\<close>

fun scan_2d_inner ::
  "LatencyFreeScanner \<Rightarrow> real array2 \<Rightarrow> real array2 \<Rightarrow> nat \<Rightarrow> nat list \<Rightarrow>
   npfloat array2 \<Rightarrow> npfloat array2 \<Rightarrow> real list list \<Rightarrow>
   (error + npfloat array2 \<times> npfloat array2) \<times> real list list" where
  "scan_2d_inner self grid1 grid2 i [] switches resonances calls =
     (Inr (switches, resonances), calls)"
| "scan_2d_inner self grid1 grid2 i (j # js) switches resonances calls =
     (case model_func self [get2 grid1 j i, get2 grid2 j i] of
        Inl e \<Rightarrow> (Inl e, calls @ [[get2 grid1 j i, get2 grid2 j i]])
      | Inr model \<Rightarrow>
          (case compute_residual_norm (data self) model (errors self) of
             Inl e \<Rightarrow> (Inl e, calls @ [[get2 grid1 j i, get2 grid2 j i]])
           | Inr residual \<Rightarrow>
               scan_2d_inner self grid1 grid2 i js
                 (set2 switches j i (Fin (of_int (BesemerSwitch_call (switch self) residual))))
                 (set2 resonances j i (resonance_strength (switch self) residual))
                 (calls @ [[get2 grid1 j i, get2 grid2 j i]])))"

text \<open>The outer loop, \<open>for i in range(n_points[0])\<close>.\<close>

fun scan_2d_outer ::
  "LatencyFreeScanner \<Rightarrow> real array2 \<Rightarrow> real array2 \<Rightarrow> nat list \<Rightarrow> nat list \<Rightarrow>
   npfloat array2 \<Rightarrow> npfloat array2 \<Rightarrow> real list list \<Rightarrow>
   (error + npfloat array2 \<times> npfloat array2) \<times> real list list" where
  "scan_2d_outer self grid1 grid2 [] js switches resonances calls =
     (Inr (switches, resonances), calls)"
| "scan_2d_outer self grid1 grid2 (i # iis) js switches resonances calls =
     (case scan_2d_inner self grid1 grid2 i js switches resonances calls of
        (Inl e, calls') \<Rightarrow> (Inl e, calls')
      | (Inr (switches', resonances'), calls') \<Rightarrow>
          scan_2d_outer self grid1 grid2 iis js switches' resonances' calls')"

text \<open>
  \<open>scan_2d(param1_range, param2_range, n_points)\<close>. The three attributes of the scanner
  are assigned after the loops, so only a scan that completes changes them.
\<close>

definition scan_2d ::
  "LatencyFreeScanner \<Rightarrow> real \<times> real \<Rightarrow> real \<times> real \<Rightarrow> int \<times> int \<Rightarrow>
   (error + real array2 \<times> real array2 \<times> npfloat array2 \<times> npfloat array2)
   \<times> LatencyFreeScanner \<times> real list list" where
  "scan_2d self param1_range param2_range n_points =
     (case np_linspace (fst param1_range) (snd param1_range) (fst n_points) of
        Inl e \<Rightarrow> (Inl e, self, [])
      | Inr param1 \<Rightarrow>
     (case np_linspace (fst param2_range) (snd param2_range) (snd n_points) of
        Inl e \<Rightarrow> (Inl e, self, [])
      | Inr param2 \<Rightarrow>
          (let grid1 = fst (np_meshgrid param1 param2);
               grid2 = snd (np_meshgrid param1 param2)
           in case scan_2d_outer self grid1 grid2
                     [0..<nat (fst n_points)] [0..<nat (snd n_points)]
                     (np_zeros_like grid1) (np_zeros_like grid1) [] of
                (Inl e, calls) \<Rightarrow> (Inl e, self, calls)
              | (Inr (switches, resonances), calls) \<Rightarrow>
                  (Inr (grid1, grid2, switches, resonances),
                   self\<lparr> grid_points := Some (grid1, grid2),
                         switch_values := Some switches,
                         resonance_values := Some resonances \<rparr>,
                   calls))))"

text \<open>\<open>find_manifold\<close>: the coordinates of the grid points whose switch value is 1.\<close>

definition find_manifold :: "LatencyFreeScanner \<Rightarrow> error + real list \<times> real list" where
  "find_manifold self =
     (case switch_values self of
        None \<Rightarrow> Inl ValueError_no_scan
      | Some sv \<Rightarrow>
          (let msk = array2_eq1 sv
           in case grid_points self of
                None \<Rightarrow> Inl TypeError_unpack_None
              | Some (grid1, grid2) \<Rightarrow>
                  (case boolean_index grid1 msk of
                     Inl e \<Rightarrow> Inl e
                   | Inr manifold_param1 \<Rightarrow>
                       (case boolean_index grid2 msk of
                          Inl e \<Rightarrow> Inl e
                        | Inr manifold_param2 \<Rightarrow> Inr (manifold_param1, manifold_param2)))))"

text \<open>
  \<open>analyze_geometry\<close> returns a dict. The four statistics are entered only when the
  manifold has a point.
\<close>

datatype pyval = PyInt int | PyFloat npfloat

definition analyze_geometry :: "LatencyFreeScanner \<Rightarrow> error + (string \<rightharpoonup> pyval)" where
  "analyze_geometry self =
     (case switch_values self of
        None \<Rightarrow> Inl ValueError_no_scan
      | Some sv \<Rightarrow>
          (let n_resonant = np_count (array2_eq1 sv);
               total = array2_size sv;
               fraction = np_divide (Fin (real n_resonant)) (Fin (real total))
           in case find_manifold self of
                Inl e \<Rightarrow> Inl e
              | Inr (manifold_param1, manifold_param2) \<Rightarrow>
                  (let result =
                         [''n_resonant_points'' \<mapsto> PyInt (int n_resonant),
                          ''total_points'' \<mapsto> PyInt (int total),
                          ''resonance_fraction'' \<mapsto> PyFloat fraction,
                          ''manifold_size'' \<mapsto> PyInt (int (length manifold_param1))]
                   in if length manifold_param1 > 0
                      then Inr (result(''param1_mean'' \<mapsto> PyFloat (np_mean manifold_param1),
                                       ''param1_std'' \<mapsto> PyFloat (np_std manifold_param1),
                                       ''param2_mean'' \<mapsto> PyFloat (np_mean manifold_param2),
                                       ''param2_std'' \<mapsto> PyFloat (np_std manifold_param2)))
                      else Inr result)))"

section \<open>The dipole of two scans (hubble\_dipole.py)\<close>

text \<open>
  The pole of one switch field: the mean coordinates of its resonant points, \<open>None\<close>
  when it has none. \<open>find_dipole_structure\<close> does this once for each of its two fields.
\<close>

definition find_pole ::
  "bool array2 \<Rightarrow> real array2 \<Rightarrow> real array2 \<Rightarrow> error + (npfloat \<times> npfloat) option" where
  "find_pole msk grid_H0 grid_Om0 =
     (if np_any msk
      then (case boolean_index grid_H0 msk of
              Inl e \<Rightarrow> Inl e
            | Inr pole_H0 \<Rightarrow>
                (case boolean_index grid_Om0 msk of
                   Inl e \<Rightarrow> Inl e
                 | Inr pole_Om0 \<Rightarrow> Inr (Some (np_mean pole_H0, np_mean pole_Om0))))
      else Inr None)"

text \<open>
  \<open>msk1 & msk2\<close>. Where it is computed both masks have indexed \<open>grid_H0\<close> without error,
  so they have one shape and nothing is broadcast.
\<close>

definition array2_and :: "bool array2 \<Rightarrow> bool array2 \<Rightarrow> bool array2" where
  "array2_and a b = \<lparr>shape = shape a, cells = map2 (map2 (\<and>)) (cells a) (cells b)\<rparr>"

text \<open>The result dict of \<open>find_dipole_structure\<close>: its five keys, each \<open>None\<close> at first.\<close>

record dipole_result =
  planck_pole :: "(npfloat \<times> npfloat) option"
  supernova_pole :: "(npfloat \<times> npfloat) option"
  dipole_distance :: "npfloat option"
  dipole_angle :: "npfloat option"
  overlap :: "nat option"

definition find_dipole_structure ::
  "npfloat array2 \<Rightarrow> npfloat array2 \<Rightarrow> real array2 \<Rightarrow> real array2 \<Rightarrow> error + dipole_result" where
  "find_dipole_structure planck_switches supernova_switches grid_H0 grid_Om0 =
     (let planck_msk = array2_eq1 planck_switches;
          supernova_msk = array2_eq1 supernova_switches
      in case find_pole planck_msk grid_H0 grid_Om0 of
           Inl e \<Rightarrow> Inl e
         | Inr planck \<Rightarrow>
        (case find_pole supernova_msk grid_H0 grid_Om0 of
           Inl e \<Rightarrow> Inl e
         | Inr supernova \<Rightarrow>
             (case (planck, supernova) of
                (Some p1, Some p2) \<Rightarrow>
                  (let delta0 = np_subtract (fst p2) (fst p1);
                       delta1 = np_subtract (snd p2) (snd p1)
                   in Inr \<lparr> planck_pole = planck, supernova_pole = supernova,
                            dipole_distance = Some (np_sqrt (np_sum (map np_square [delta0, delta1]))),
                            dipole_angle =
                              Some (np_divide (np_multiply (np_arctan2 delta1 delta0) (Fin 180)) (Fin pi)),
                            overlap = Some (np_count (array2_and planck_msk supernova_msk)) \<rparr>)
              | _ \<Rightarrow>
                  Inr \<lparr> planck_pole = planck, supernova_pole = supernova,
                         dipole_distance = None, dipole_angle = None, overlap = None \<rparr>)))"

section \<open>What one grid point yields\<close>

text \<open>
  The body of the scan loops at one grid point: the model is evaluated, the residual norm
  computed, and the switch value (as a float) and the resonance strength are the two
  numbers stored for the point. The loops above spell this out; this function states
  their results.
\<close>

definition point_value :: "LatencyFreeScanner \<Rightarrow> real list \<Rightarrow> error + npfloat \<times> npfloat" where
  "point_value self args =
     (case model_func self args of
        Inl e \<Rightarrow> Inl e
      | Inr model \<Rightarrow>
          (case compute_residual_norm (data self) model (errors self) of
             Inl e \<Rightarrow> Inl e
           | Inr residual \<Rightarrow>
               Inr (Fin (of_int (BesemerSwitch_call (switch self) residual)),
                    resonance_strength (switch self) residual)))"

text \<open>
  The order in which \<open>scan_2d\<close> visits its grid: all of column \<open>i\<close> (rows \<open>0\<close> to
  \<open>n - 1\<close>) is one run of calls.
\<close>

definition column_calls :: "real list \<Rightarrow> real list \<Rightarrow> nat \<Rightarrow> nat \<Rightarrow> real list list" where
  "column_calls param1 param2 i n = map (\<lambda>j. [param1 ! i, param2 ! j]) [0..<n]"

section \<open>Valid observations\<close>





section \<open>Array shapes and example models\<close>

text \<open>
  \<open>in_range a j i\<close>: the array has an entry \<open>[j, i]\<close>. \<open>same_form a b\<close>: the two arrays
  have one shape and rows of the same lengths.
\<close>

definition in_range :: "'a array2 \<Rightarrow> nat \<Rightarrow> nat \<Rightarrow> bool" where
  "in_range a j i = (j < length (cells a) \<and> i < length (cells a ! j))"

definition same_form :: "'a array2 \<Rightarrow> 'b array2 \<Rightarrow> bool" where
  "same_form a b = (shape a = shape b \<and> map length (cells a) = map length (cells b))"

text \<open>
  Two model functions for concrete scans. The first is the parabola of \<open>test_scanner\<close>,
  \<open>x**2\<close>, with \<open>x**2 + y**2\<close> as its form in two parameters. The second raises on a part
  of the parameter space. Called with another number of arguments a Python function
  raises a \<open>TypeError\<close>.
\<close>

fun parabola_model :: "real list \<Rightarrow> error + npfloat list" where
  "parabola_model [x] = Inr [Fin (x * x)]"
| "parabola_model [x, y] = Inr [Fin (x * x + y * y)]"
| "parabola_model args = Inl (Raised 0)"

fun guarded_model :: "real list \<Rightarrow> error + npfloat list" where
  "guarded_model [x] = (if x \<le> 1 then Inr [Fin (x * x)] else Inl (Raised 1))"
| "guarded_model [x, y] = (if x < 1 \<or> y < 1 then Inr [Fin (x * y)] else Inl (Raised 1))"
| "guarded_model args = Inl (Raised 0)"

section \<open>Properties of the switch\<close>

lemma np_maximum_Fin: "np_maximum (Fin a) (Fin b) = Fin (max a b)"
  by (simp add: np_maximum_def max_def)

lemma np_maximum_floor: "np_ge e r \<Longrightarrow> np_maximum r e = e"
  by (cases r; cases e) (auto simp: np_maximum_def)

lemma np_ge_refl: "x \<noteq> NaN \<Longrightarrow> np_ge x x"
  by (cases x) auto

lemma np_ge_not_NaN: "np_ge a b \<Longrightarrow> a \<noteq> NaN \<and> b \<noteq> NaN"
  by (cases a; cases b) auto

lemma call_strength:
  "BesemerSwitch_call self r = (if np_ge (resonance_strength self r) (threshold self) then 1 else 0)"
  by (simp add: BesemerSwitch_call_def resonance_strength_def)

lemma strength_Fin:
  "0 < max r e \<Longrightarrow>
   resonance_strength \<lparr>beta = Fin b, threshold = t, epsilon = Fin e\<rparr> (Fin r) = Fin (b / max r e)"
  by (simp add: resonance_strength_def np_maximum_Fin)

lemma strength_floor:
  "np_ge (epsilon self) r \<Longrightarrow> resonance_strength self r = np_divide (beta self) (epsilon self)"
  by (simp add: resonance_strength_def np_maximum_floor)







text \<open>
  Claim C5. For every configuration and every residual, finite or not, the switch returns
  the integer 0 or 1, and it returns 1 if and only if the resonance strength of that
  residual is \<open>>=\<close> the threshold; a strength equal to the threshold gives 1. Applied to
  an array the switch keeps the length, and the same holds of every element.
\<close>

theorem switch_binary_iff_strength:
  "(BesemerSwitch_call self r = 0 \<or> BesemerSwitch_call self r = 1)
   \<and> (BesemerSwitch_call self r = 1 \<longleftrightarrow> np_ge (resonance_strength self r) (threshold self))
   \<and> (np_eq (resonance_strength self r) (threshold self) \<longrightarrow> BesemerSwitch_call self r = 1)
   \<and> length (BesemerSwitch_call_array self rs) = length rs
   \<and> (\<forall>i<length rs.
         (BesemerSwitch_call_array self rs ! i = 0 \<or> BesemerSwitch_call_array self rs ! i = 1)
       \<and> (BesemerSwitch_call_array self rs ! i = 1
            \<longleftrightarrow> np_ge (resonance_strength_array self rs ! i) (threshold self)))"
  by (auto simp: call_strength np_eq_def np_ge_refl BesemerSwitch_call_array_def
        resonance_strength_array_def)

text \<open>
  At the default configuration the residual 296 has the strength 1, the threshold, and is
  resonant; in the array \<open>[1, 1000, NaN]\<close> the entries 1000 and NaN are not.
\<close>

theorem switch_binary_iff_strength_witness:
  "np_eq (resonance_strength (BesemerSwitch_init None None None) (Fin 296))
         (threshold (BesemerSwitch_init None None None))
   \<and> BesemerSwitch_call (BesemerSwitch_init None None None) (Fin 296) = 1
   \<and> (2::nat) < length [Fin 1, Fin 1000, NaN]
   \<and> BesemerSwitch_call_array (BesemerSwitch_init None None None) [Fin 1, Fin 1000, NaN] ! 2 = 0
   \<and> \<not> np_ge (resonance_strength_array (BesemerSwitch_init None None None)
                  [Fin 1, Fin 1000, NaN] ! 2)
               (threshold (BesemerSwitch_init None None None))"
  using switch_binary_iff_strength
    [of "BesemerSwitch_init None None None" "Fin 296" "[Fin 1, Fin 1000, NaN]"]
  by (simp add: BesemerSwitch_init_def resonance_strength_def np_maximum_def np_eq_def
        resonance_strength_array_def BesemerSwitch_call_array_def BesemerSwitch_call_def)

text \<open>
  Claim C6. For every configuration and every residual \<open>r\<close> with \<open>epsilon >= r\<close>, the
  resonance strength is \<open>beta / epsilon\<close>, the very value the division of the two
  configured numbers gives; for finite values with \<open>epsilon \<noteq> 0\<close> that is the real
  quotient, whatever \<open>r \<le> epsilon\<close> is.
\<close>

theorem resonance_strength_saturates:
  "(np_ge (epsilon self) r \<longrightarrow> resonance_strength self r = np_divide (beta self) (epsilon self))
   \<and> (x \<le> e \<and> e \<noteq> 0 \<longrightarrow>
        resonance_strength \<lparr>beta = Fin b, threshold = t, epsilon = Fin e\<rparr> (Fin x) = Fin (b / e))"
  by (auto simp: strength_floor)

theorem resonance_strength_saturates_witness:
  "np_ge (epsilon (BesemerSwitch_init None None None)) (Fin 0)
   \<and> resonance_strength (BesemerSwitch_init None None None) (Fin 0)
       = np_divide (beta (BesemerSwitch_init None None None))
                   (epsilon (BesemerSwitch_init None None None))
   \<and> (0::real) \<le> 1 / 10 ^ 10 \<and> (1 / 10 ^ 10 :: real) \<noteq> 0
   \<and> resonance_strength \<lparr>beta = Fin 296, threshold = Fin 1, epsilon = Fin (1 / 10 ^ 10)\<rparr> (Fin 0)
       = Fin (296 / (1 / 10 ^ 10))"
  using resonance_strength_saturates
    [of "BesemerSwitch_init None None None" "Fin 0" 0 "1 / 10 ^ 10" 296 "Fin 1"]
  by (simp add: BesemerSwitch_init_def)

text \<open>
  Claim C10. A residual \<open>r\<close> with \<open>epsilon >= r\<close>, negative ones among them, is treated as
  \<open>epsilon\<close> itself: its resonance strength is \<open>beta / epsilon\<close>, strength and decision
  are those of the residual \<open>epsilon\<close>, and the decision is 1 if and only if
  \<open>beta / epsilon >= T\<close>. The switch has no error outcome. A negative residual is not
  replaced by its absolute value: for \<open>epsilon > 0\<close>, \<open>beta \<noteq> 0\<close> and \<open>x < - epsilon\<close> the
  strength of \<open>x\<close> is \<open>beta / epsilon\<close>, that of \<open>\<bar>x\<bar>\<close> is \<open>beta / \<bar>x\<bar>\<close>, and the two differ.
\<close>

theorem switch_below_floor:
  "(np_ge (epsilon self) r \<longrightarrow>
      resonance_strength self r = np_divide (beta self) (epsilon self)
    \<and> resonance_strength self r = resonance_strength self (epsilon self)
    \<and> BesemerSwitch_call self r = BesemerSwitch_call self (epsilon self)
    \<and> (BesemerSwitch_call self r = 1
         \<longleftrightarrow> np_ge (np_divide (beta self) (epsilon self)) (threshold self)))
   \<and> (0 < e \<and> x < - e \<and> b \<noteq> 0 \<longrightarrow>
        resonance_strength \<lparr>beta = Fin b, threshold = t, epsilon = Fin e\<rparr> (Fin x) = Fin (b / e)
      \<and> resonance_strength \<lparr>beta = Fin b, threshold = t, epsilon = Fin e\<rparr> (Fin \<bar>x\<bar>) = Fin (b / \<bar>x\<bar>)
      \<and> b / e \<noteq> b / \<bar>x\<bar>)"
proof (intro conjI impI)
  assume ge: "np_ge (epsilon self) r"
  then have e: "np_ge (epsilon self) (epsilon self)"
    using np_ge_not_NaN np_ge_refl by blast
  show s: "resonance_strength self r = np_divide (beta self) (epsilon self)"
    using ge by (rule strength_floor)
  show s': "resonance_strength self r = resonance_strength self (epsilon self)"
    using s strength_floor [OF e] by simp
  show "BesemerSwitch_call self r = BesemerSwitch_call self (epsilon self)"
    using s' by (simp add: call_strength)
  show "BesemerSwitch_call self r = 1
         \<longleftrightarrow> np_ge (np_divide (beta self) (epsilon self)) (threshold self)"
    using s by (simp add: call_strength)
next
  assume a: "0 < e \<and> x < - e \<and> b \<noteq> 0"
  then have m1: "max x e = e" and m2: "max \<bar>x\<bar> e = \<bar>x\<bar>" and pos: "0 < \<bar>x\<bar>" and ne: "e \<noteq> \<bar>x\<bar>"
    by auto
  show "resonance_strength \<lparr>beta = Fin b, threshold = t, epsilon = Fin e\<rparr> (Fin x) = Fin (b / e)"
    using a strength_Fin [of x e b t] m1 by simp
  show "resonance_strength \<lparr>beta = Fin b, threshold = t, epsilon = Fin e\<rparr> (Fin \<bar>x\<bar>) = Fin (b / \<bar>x\<bar>)"
    using pos strength_Fin [of "\<bar>x\<bar>" e b t] m2 by simp
  have "\<And>p q::real. 0 < p \<Longrightarrow> 0 < q \<Longrightarrow> p \<noteq> q \<Longrightarrow> b / p \<noteq> b / q"
    using a by (simp add: frac_eq_eq)
  from this [of e "\<bar>x\<bar>"] show "b / e \<noteq> b / \<bar>x\<bar>"
    using a ne pos by blast
qed

text \<open>
  The residual \<open>-5\<close> at the default configuration is resonant, with the strength of the
  floor; at \<open>epsilon = 1\<close> the residuals \<open>-2\<close> and \<open>2\<close> have the strengths 296 and 148.
\<close>

theorem switch_below_floor_witness:
  "np_ge (epsilon (BesemerSwitch_init None None None)) (Fin (- 5))
   \<and> resonance_strength (BesemerSwitch_init None None None) (Fin (- 5)) = Fin (296 * 10 ^ 10)
   \<and> BesemerSwitch_call (BesemerSwitch_init None None None) (Fin (- 5)) = 1
   \<and> (0::real) < 1 \<and> (- 2 :: real) < - 1 \<and> (296::real) \<noteq> 0
   \<and> resonance_strength \<lparr>beta = Fin 296, threshold = Fin 1, epsilon = Fin 1\<rparr> (Fin (- 2)) = Fin 296
   \<and> resonance_strength \<lparr>beta = Fin 296, threshold = Fin 1, epsilon = Fin 1\<rparr> (Fin 2) = Fin 148"
  using switch_below_floor
    [of "BesemerSwitch_init None None None" "Fin (- 5)" 1 "- 2" 296 "Fin 1"]
  by (simp add: BesemerSwitch_init_def)

section \<open>Properties of the residual functions\<close>

lemma broadcast_shape_mismatch:
  "n \<noteq> m \<Longrightarrow> n \<noteq> 1 \<Longrightarrow> m \<noteq> 1 \<Longrightarrow> broadcast_shape n m = Inl ValueError_broadcast"
  by (simp add: broadcast_shape_def)

lemma broadcast_shape_one:
  "n = 1 \<or> m = 1 \<Longrightarrow> \<exists>k. broadcast_shape n m = Inr k"
  by (auto simp: broadcast_shape_def)



lemma norm_of_chi:
  "compute_residual_norm d m errs =
     (case compute_chi_squared d m errs of Inl e \<Rightarrow> Inl e | Inr c \<Rightarrow> Inr (np_sqrt c))"
  by (simp add: compute_residual_norm_def compute_chi_squared_def split: sum.splits option.splits)

text \<open>
  Claim C4, as it is written, fails: numpy broadcasts an array of one element against
  one of any length. The data \<open>[4.0]\<close> and the prediction \<open>[1.0, 2.0, 3.0]\<close> differ in
  length, and both functions return a number: \<open>9 + 4 + 1 = 14\<close> and its square root.
\<close>

theorem residual_broadcast_counterexample:
  "length [Fin 4] \<noteq> length [Fin 1, Fin 2, Fin 3]
   \<and> compute_chi_squared [Fin 4] [Fin 1, Fin 2, Fin 3] None = Inr (Fin 14)
   \<and> compute_residual_norm [Fin 4] [Fin 1, Fin 2, Fin 3] None = Inr (Fin (sqrt 14))"
  by (simp add: norm_of_chi compute_chi_squared_def np_binary_def broadcast_shape_def
        broadcast_to_def np_subtract_def np_sum_def)

text \<open>
  Claim C4, amended. If the data vector and the prediction vector differ in length and
  neither has length 1, \<open>compute_residual_norm\<close> and \<open>compute_chi_squared\<close> fail with the
  broadcasting error of the subtraction, whatever the uncertainties are. If one of the two
  has length 1 it is broadcast against the other, and without uncertainties both
  functions return a number.
\<close>

theorem residual_length_mismatch:
  "(length d \<noteq> length m \<and> length d \<noteq> 1 \<and> length m \<noteq> 1 \<longrightarrow>
      compute_residual_norm d m errs = Inl ValueError_broadcast
    \<and> compute_chi_squared d m errs = Inl ValueError_broadcast)
   \<and> (length d = 1 \<or> length m = 1 \<longrightarrow>
       (\<exists>v. compute_residual_norm d m None = Inr v) \<and> (\<exists>v. compute_chi_squared d m None = Inr v))"
proof (intro conjI impI)
  assume "length d \<noteq> length m \<and> length d \<noteq> 1 \<and> length m \<noteq> 1"
  then have "np_binary np_subtract d m = Inl ValueError_broadcast"
    by (simp add: np_binary_def broadcast_shape_mismatch)
  then show "compute_residual_norm d m errs = Inl ValueError_broadcast"
    and "compute_chi_squared d m errs = Inl ValueError_broadcast"
    by (simp_all add: compute_residual_norm_def compute_chi_squared_def)
next
  assume "length d = 1 \<or> length m = 1"
  then obtain k where "broadcast_shape (length d) (length m) = Inr k"
    using broadcast_shape_one by blast
  then have "\<exists>res. np_binary np_subtract d m = Inr res"
    by (simp add: np_binary_def)
  then show "\<exists>v. compute_residual_norm d m None = Inr v"
    and "\<exists>v. compute_chi_squared d m None = Inr v"
    by (auto simp: compute_residual_norm_def compute_chi_squared_def)
qed

theorem residual_length_mismatch_witness:
  "length [Fin 1, Fin 2] \<noteq> length [Fin 1, Fin 2, Fin 3]
   \<and> compute_residual_norm [Fin 1, Fin 2] [Fin 1, Fin 2, Fin 3] (Some [Fin 1]) = Inl ValueError_broadcast
   \<and> compute_chi_squared [Fin 1, Fin 2] [Fin 1, Fin 2, Fin 3] (Some [Fin 1]) = Inl ValueError_broadcast
   \<and> length [Fin 4] = 1
   \<and> (\<exists>v. compute_residual_norm [Fin 4] [Fin 1, Fin 2, Fin 3] None = Inr v)"
  using residual_length_mismatch [of "[Fin 1, Fin 2]" "[Fin 1, Fin 2, Fin 3]" "Some [Fin 1]"]
    residual_length_mismatch [of "[Fin 4]" "[Fin 1, Fin 2, Fin 3]"]
  by simp














section \<open>Properties of the scans\<close>

lemma scan_1d_loop_step:
  assumes "point_value self [p] = Inr (a, b)"
  shows "scan_1d_loop self ((i, p) # rest) switches resonances calls
       = scan_1d_loop self rest (switches[i := a]) (resonances[i := b]) (calls @ [[p]])"
  using assms by (auto simp: point_value_def split: sum.splits)

lemma scan_1d_loop_stop:
  assumes "point_value self [p] = Inl e"
  shows "scan_1d_loop self ((i, p) # rest) switches resonances calls = (Inl e, calls @ [[p]])"
  using assms by (auto simp: point_value_def split: sum.splits)

declare scan_1d_loop.simps(2) [simp del]

lemma scan_1d_loop_ok:
  assumes "\<forall>p\<in>set ps. \<exists>v. point_value self [p] = Inr v"
    and "k + length ps \<le> length switches" and "k + length ps \<le> length resonances"
  shows "\<exists>sw rs. scan_1d_loop self (List.enumerate k ps) switches resonances calls
                  = (Inr (sw, rs), calls @ map (\<lambda>p. [p]) ps)
           \<and> length sw = length switches \<and> length rs = length resonances
           \<and> (\<forall>i<length ps. point_value self [ps ! i] = Inr (sw ! (k + i), rs ! (k + i)))
           \<and> (\<forall>i<k. sw ! i = switches ! i \<and> rs ! i = resonances ! i)"
  using assms
proof (induction ps arbitrary: k switches resonances calls)
  case Nil
  then show ?case by simp
next
  case (Cons p ps)
  from Cons.prems(1) obtain a b where pv: "point_value self [p] = Inr (a, b)"
    by fastforce
  let ?sw = "switches[k := a]" and ?rs = "resonances[k := b]"
  have "\<forall>q\<in>set ps. \<exists>v. point_value self [q] = Inr v"
    using Cons.prems(1) by simp
  moreover have "Suc k + length ps \<le> length ?sw" "Suc k + length ps \<le> length ?rs"
    using Cons.prems(2,3) by simp_all
  ultimately obtain sw rs where
    run: "scan_1d_loop self (List.enumerate (Suc k) ps) ?sw ?rs (calls @ [[p]])
            = (Inr (sw, rs), (calls @ [[p]]) @ map (\<lambda>p. [p]) ps)"
    and len: "length sw = length ?sw" "length rs = length ?rs"
    and new: "\<forall>i<length ps. point_value self [ps ! i] = Inr (sw ! (Suc k + i), rs ! (Suc k + i))"
    and old: "\<forall>i<Suc k. sw ! i = ?sw ! i \<and> rs ! i = ?rs ! i"
    using Cons.IH [of "Suc k" ?sw ?rs "calls @ [[p]]"] by blast
  have k: "k < length switches" "k < length resonances"
    using Cons.prems(2,3) by simp_all
  have at_k: "sw ! k = a" "rs ! k = b"
    using old k by simp_all
  have "\<forall>i<length (p # ps). point_value self [(p # ps) ! i] = Inr (sw ! (k + i), rs ! (k + i))"
  proof (intro allI impI)
    fix i assume "i < length (p # ps)"
    then show "point_value self [(p # ps) ! i] = Inr (sw ! (k + i), rs ! (k + i))"
      using new pv at_k by (cases i) simp_all
  qed
  moreover have "\<forall>i<k. sw ! i = switches ! i \<and> rs ! i = resonances ! i"
    using old by simp
  moreover have "scan_1d_loop self (List.enumerate k (p # ps)) switches resonances calls
                  = (Inr (sw, rs), calls @ map (\<lambda>p. [p]) (p # ps))"
    using run by (simp add: scan_1d_loop_step [OF pv])
  ultimately show ?case using len by auto
qed

lemma scan_1d_loop_fail:
  assumes "j < length ps" and "\<forall>i<j. \<exists>v. point_value self [ps ! i] = Inr v"
    and "point_value self [ps ! j] = Inl e"
  shows "scan_1d_loop self (List.enumerate k ps) switches resonances calls
           = (Inl e, calls @ map (\<lambda>p. [p]) (take (Suc j) ps))"
  using assms
proof (induction ps arbitrary: j k switches resonances calls)
  case Nil
  then show ?case by simp
next
  case (Cons p ps)
  show ?case
  proof (cases j)
    case 0
    then show ?thesis using Cons.prems(3) by (simp add: scan_1d_loop_stop)
  next
    case (Suc j')
    from Cons.prems(2) Suc obtain a b where pv: "point_value self [p] = Inr (a, b)"
      by fastforce
    have "j' < length ps" using Cons.prems(1) Suc by simp
    moreover have "\<forall>i<j'. \<exists>v. point_value self [ps ! i] = Inr v"
      using Cons.prems(2) Suc by fastforce
    moreover have "point_value self [ps ! j'] = Inl e"
      using Cons.prems(3) Suc by simp
    ultimately have "scan_1d_loop self (List.enumerate (Suc k) ps)
                       (switches[k := a]) (resonances[k := b]) (calls @ [[p]])
                   = (Inl e, (calls @ [[p]]) @ map (\<lambda>p. [p]) (take (Suc j') ps))"
      by (rule Cons.IH)
    then show ?thesis using Suc by (simp add: scan_1d_loop_step [OF pv])
  qed
qed

lemma linspace_length: "np_linspace lo hi n = Inr ps \<Longrightarrow> 0 \<le> n \<and> length ps = nat n"
  by (auto simp: np_linspace_def Let_def split: if_splits)

text \<open>Every count that is not negative has its grid.\<close>

lemma linspace_ok: "0 \<le> n \<Longrightarrow> \<exists>ps. np_linspace lo hi n = Inr ps"
  by (simp add: np_linspace_def)

lemma scan_1d_ok:
  assumes lin: "np_linspace lo hi n = Inr ps"
    and ok: "\<forall>p\<in>set ps. \<exists>v. point_value self [p] = Inr v"
  shows "\<exists>ss rs. scan_1d self (lo, hi) n = (Inr (ps, ss, rs), self, map (\<lambda>p. [p]) ps)
           \<and> length ps = nat n \<and> length ss = nat n \<and> length rs = nat n
           \<and> (\<forall>i<nat n. point_value self [ps ! i] = Inr (ss ! i, rs ! i))"
proof -
  have len: "length ps = nat n" using lin by (simp add: linspace_length)
  have "0 + length ps \<le> length (np_zeros (nat n))" by (simp add: np_zeros_def len)
  from scan_1d_loop_ok [OF ok this this, of "[]"]
  obtain sw rs where
    run: "scan_1d_loop self (List.enumerate 0 ps) (np_zeros (nat n)) (np_zeros (nat n)) []
            = (Inr (sw, rs), map (\<lambda>p. [p]) ps)"
    and l: "length sw = nat n" "length rs = nat n"
    and v: "\<forall>i<length ps. point_value self [ps ! i] = Inr (sw ! i, rs ! i)"
    by (auto simp: np_zeros_def)
  have "scan_1d self (lo, hi) n = (Inr (ps, sw, rs), self, map (\<lambda>p. [p]) ps)"
    by (simp add: scan_1d_def lin run)
  then show ?thesis using len l v by auto
qed

lemma scan_1d_fail:
  assumes lin: "np_linspace lo hi n = Inr ps"
    and "j < length ps" and "\<forall>i<j. \<exists>v. point_value self [ps ! i] = Inr v"
    and "point_value self [ps ! j] = Inl e"
  shows "scan_1d self (lo, hi) n = (Inl e, self, map (\<lambda>p. [p]) (take (Suc j) ps))"
  using scan_1d_loop_fail [OF assms(2-4), of 0 "np_zeros (nat n)" "np_zeros (nat n)" "[]"]
  by (simp add: scan_1d_def lin)

lemma same_form_refl: "same_form a a"
  by (simp add: same_form_def)

lemma same_form_trans: "same_form a b \<Longrightarrow> same_form b c \<Longrightarrow> same_form a c"
  by (simp add: same_form_def)

lemma same_form_in_range: "same_form a b \<Longrightarrow> in_range a j i = in_range b j i"
proof -
  assume "same_form a b"
  then have m: "map length (cells a) = map length (cells b)"
    by (simp add: same_form_def)
  then have l: "length (cells a) = length (cells b)"
    by (rule map_eq_imp_length_eq)
  have "length (cells a ! j) = length (cells b ! j)" if "j < length (cells a)"
    using that m l by (metis nth_map)
  then show ?thesis using l by (auto simp: in_range_def)
qed

lemma same_form_set2: "same_form (set2 a j i v) a"
proof -
  have "map length ((cells a)[j := (cells a ! j)[i := v]]) = map length (cells a)"
    by (cases "j < length (cells a)")
       (auto simp: list_eq_iff_nth_eq nth_list_update list_update_beyond)
  then show ?thesis by (simp add: same_form_def set2_def)
qed

lemma get2_set2_same: "in_range a j i \<Longrightarrow> get2 (set2 a j i v) j i = v"
  by (simp add: in_range_def get2_def set2_def)

lemma get2_set2_other: "j' \<noteq> j \<or> i' \<noteq> i \<Longrightarrow> get2 (set2 a j i v) j' i' = get2 a j' i'"
  by (cases "j < length (cells a)")
     (auto simp: get2_def set2_def nth_list_update list_update_beyond)

lemma scan_2d_inner_step:
  assumes "point_value self [get2 g1 j i, get2 g2 j i] = Inr (a, b)"
  shows "scan_2d_inner self g1 g2 i (j # js) switches resonances calls
       = scan_2d_inner self g1 g2 i js (set2 switches j i a) (set2 resonances j i b)
           (calls @ [[get2 g1 j i, get2 g2 j i]])"
  using assms by (auto simp: point_value_def split: sum.splits)

lemma scan_2d_inner_stop:
  assumes "point_value self [get2 g1 j i, get2 g2 j i] = Inl e"
  shows "scan_2d_inner self g1 g2 i (j # js) switches resonances calls
       = (Inl e, calls @ [[get2 g1 j i, get2 g2 j i]])"
  using assms by (auto simp: point_value_def split: sum.splits)

declare scan_2d_inner.simps(2) [simp del]

lemma scan_2d_inner_ok:
  assumes "\<forall>j\<in>set js. \<exists>v. point_value self [get2 g1 j i, get2 g2 j i] = Inr v"
  shows "\<exists>sw rs. scan_2d_inner self g1 g2 i js switches resonances calls
                  = (Inr (sw, rs), calls @ map (\<lambda>j. [get2 g1 j i, get2 g2 j i]) js)
           \<and> same_form sw switches \<and> same_form rs resonances
           \<and> (\<forall>j' i'. j' \<notin> set js \<or> i' \<noteq> i \<longrightarrow>
                 get2 sw j' i' = get2 switches j' i' \<and> get2 rs j' i' = get2 resonances j' i')
           \<and> (\<forall>j\<in>set js. in_range switches j i \<and> in_range resonances j i \<longrightarrow>
                 point_value self [get2 g1 j i, get2 g2 j i] = Inr (get2 sw j i, get2 rs j i))"
  using assms
proof (induction js arbitrary: switches resonances calls)
  case Nil
  then show ?case by (simp add: same_form_refl)
next
  case (Cons j js)
  from Cons.prems obtain a b where pv: "point_value self [get2 g1 j i, get2 g2 j i] = Inr (a, b)"
    by fastforce
  let ?sw = "set2 switches j i a" and ?rs = "set2 resonances j i b"
  let ?calls = "calls @ [[get2 g1 j i, get2 g2 j i]]"
  have "\<forall>j\<in>set js. \<exists>v. point_value self [get2 g1 j i, get2 g2 j i] = Inr v"
    using Cons.prems by simp
  from Cons.IH [OF this, of ?sw ?rs ?calls] obtain sw rs where
    run: "scan_2d_inner self g1 g2 i js ?sw ?rs ?calls
            = (Inr (sw, rs), ?calls @ map (\<lambda>j. [get2 g1 j i, get2 g2 j i]) js)"
    and form: "same_form sw ?sw" "same_form rs ?rs"
    and keep: "\<forall>j' i'. j' \<notin> set js \<or> i' \<noteq> i \<longrightarrow>
                 get2 sw j' i' = get2 ?sw j' i' \<and> get2 rs j' i' = get2 ?rs j' i'"
    and vals: "\<forall>j\<in>set js. in_range ?sw j i \<and> in_range ?rs j i \<longrightarrow>
                 point_value self [get2 g1 j i, get2 g2 j i] = Inr (get2 sw j i, get2 rs j i)"
    by blast
  have 1: "scan_2d_inner self g1 g2 i (j # js) switches resonances calls
             = (Inr (sw, rs), calls @ map (\<lambda>j. [get2 g1 j i, get2 g2 j i]) (j # js))"
    using run by (simp add: scan_2d_inner_step [OF pv])
  have 2: "same_form sw switches" "same_form rs resonances"
    by (rule same_form_trans [OF form(1) same_form_set2],
        rule same_form_trans [OF form(2) same_form_set2])
  have 3: "\<forall>j' i'. j' \<notin> set (j # js) \<or> i' \<noteq> i \<longrightarrow>
                 get2 sw j' i' = get2 switches j' i' \<and> get2 rs j' i' = get2 resonances j' i'"
  proof (intro allI impI)
    fix j' i' assume h: "j' \<notin> set (j # js) \<or> i' \<noteq> i"
    then have "j' \<notin> set js \<or> i' \<noteq> i" and "j' \<noteq> j \<or> i' \<noteq> i" by auto
    then show "get2 sw j' i' = get2 switches j' i' \<and> get2 rs j' i' = get2 resonances j' i'"
      using keep by (simp add: get2_set2_other)
  qed
  have 4: "\<forall>k\<in>set (j # js). in_range switches k i \<and> in_range resonances k i \<longrightarrow>
                 point_value self [get2 g1 k i, get2 g2 k i] = Inr (get2 sw k i, get2 rs k i)"
  proof (intro ballI impI)
    fix k assume k: "k \<in> set (j # js)" and r: "in_range switches k i \<and> in_range resonances k i"
    have r': "in_range ?sw k i \<and> in_range ?rs k i"
      using r by (simp add: same_form_in_range [OF same_form_set2])
    show "point_value self [get2 g1 k i, get2 g2 k i] = Inr (get2 sw k i, get2 rs k i)"
    proof (cases "k \<in> set js")
      case True
      then show ?thesis using vals r' by blast
    next
      case False
      then have kj: "k = j" using k by simp
      have "get2 sw j i = get2 ?sw j i" "get2 rs j i = get2 ?rs j i"
        using keep False kj by blast+
      then have "get2 sw j i = a" "get2 rs j i = b"
        using r kj by (simp_all add: get2_set2_same)
      then show ?thesis using pv kj by simp
    qed
  qed
  show ?case
    by (rule exI [of _ sw], rule exI [of _ rs]) (intro conjI 1 2 3 4)
qed

lemma scan_2d_inner_fail:
  assumes "\<forall>j\<in>set pre. \<exists>v. point_value self [get2 g1 j i, get2 g2 j i] = Inr v"
    and "point_value self [get2 g1 j i, get2 g2 j i] = Inl e"
  shows "scan_2d_inner self g1 g2 i (pre @ j # post) switches resonances calls
           = (Inl e, calls @ map (\<lambda>j. [get2 g1 j i, get2 g2 j i]) (pre @ [j]))"
  using assms
proof (induction pre arbitrary: switches resonances calls)
  case Nil
  then show ?case by (simp add: scan_2d_inner_stop)
next
  case (Cons k pre)
  from Cons.prems obtain a b where pv: "point_value self [get2 g1 k i, get2 g2 k i] = Inr (a, b)"
    by fastforce
  have "\<forall>j\<in>set pre. \<exists>v. point_value self [get2 g1 j i, get2 g2 j i] = Inr v"
    using Cons.prems by simp
  from Cons.IH [OF this Cons.prems(2)] show ?case
    by (simp add: scan_2d_inner_step [OF pv])
qed

lemma scan_2d_outer_ok:
  assumes "\<forall>i\<in>set iis. \<forall>j\<in>set js. \<exists>v. point_value self [get2 g1 j i, get2 g2 j i] = Inr v"
  shows "\<exists>sw rs. scan_2d_outer self g1 g2 iis js switches resonances calls
                  = (Inr (sw, rs),
                     calls @ concat (map (\<lambda>i. map (\<lambda>j. [get2 g1 j i, get2 g2 j i]) js) iis))
           \<and> same_form sw switches \<and> same_form rs resonances
           \<and> (\<forall>i\<in>set iis. \<forall>j\<in>set js. in_range switches j i \<and> in_range resonances j i \<longrightarrow>
                 point_value self [get2 g1 j i, get2 g2 j i] = Inr (get2 sw j i, get2 rs j i))
           \<and> (\<forall>j' i'. j' \<notin> set js \<or> i' \<notin> set iis \<longrightarrow>
                 get2 sw j' i' = get2 switches j' i' \<and> get2 rs j' i' = get2 resonances j' i')"
  using assms
proof (induction iis arbitrary: switches resonances calls)
  case Nil
  then show ?case by (simp add: same_form_refl)
next
  case (Cons i iis)
  have "\<forall>j\<in>set js. \<exists>v. point_value self [get2 g1 j i, get2 g2 j i] = Inr v"
    using Cons.prems by simp
  from scan_2d_inner_ok [OF this, of switches resonances calls] obtain sw1 rs1 where
    run1: "scan_2d_inner self g1 g2 i js switches resonances calls
            = (Inr (sw1, rs1), calls @ map (\<lambda>j. [get2 g1 j i, get2 g2 j i]) js)"
    and form1: "same_form sw1 switches" "same_form rs1 resonances"
    and keep1: "\<forall>j' i'. j' \<notin> set js \<or> i' \<noteq> i \<longrightarrow>
                 get2 sw1 j' i' = get2 switches j' i' \<and> get2 rs1 j' i' = get2 resonances j' i'"
    and vals1: "\<forall>j\<in>set js. in_range switches j i \<and> in_range resonances j i \<longrightarrow>
                 point_value self [get2 g1 j i, get2 g2 j i] = Inr (get2 sw1 j i, get2 rs1 j i)"
    by blast
  let ?calls = "calls @ map (\<lambda>j. [get2 g1 j i, get2 g2 j i]) js"
  have "\<forall>i\<in>set iis. \<forall>j\<in>set js. \<exists>v. point_value self [get2 g1 j i, get2 g2 j i] = Inr v"
    using Cons.prems by simp
  from Cons.IH [OF this, of sw1 rs1 ?calls] obtain sw rs where
    run: "scan_2d_outer self g1 g2 iis js sw1 rs1 ?calls
            = (Inr (sw, rs),
               ?calls @ concat (map (\<lambda>i. map (\<lambda>j. [get2 g1 j i, get2 g2 j i]) js) iis))"
    and form: "same_form sw sw1" "same_form rs rs1"
    and vals: "\<forall>i\<in>set iis. \<forall>j\<in>set js. in_range sw1 j i \<and> in_range rs1 j i \<longrightarrow>
                 point_value self [get2 g1 j i, get2 g2 j i] = Inr (get2 sw j i, get2 rs j i)"
    and keep: "\<forall>j' i'. j' \<notin> set js \<or> i' \<notin> set iis \<longrightarrow>
                 get2 sw j' i' = get2 sw1 j' i' \<and> get2 rs j' i' = get2 rs1 j' i'"
    by blast
  have 1: "scan_2d_outer self g1 g2 (i # iis) js switches resonances calls
            = (Inr (sw, rs),
               calls @ concat (map (\<lambda>i. map (\<lambda>j. [get2 g1 j i, get2 g2 j i]) js) (i # iis)))"
    using run by (simp add: run1)
  have 2: "same_form sw switches" "same_form rs resonances"
    by (rule same_form_trans [OF form(1) form1(1)], rule same_form_trans [OF form(2) form1(2)])
  have 3: "\<forall>k\<in>set (i # iis). \<forall>j\<in>set js. in_range switches j k \<and> in_range resonances j k \<longrightarrow>
                 point_value self [get2 g1 j k, get2 g2 j k] = Inr (get2 sw j k, get2 rs j k)"
  proof (intro ballI impI)
    fix k j assume k: "k \<in> set (i # iis)" and j: "j \<in> set js"
      and r: "in_range switches j k \<and> in_range resonances j k"
    have r1: "in_range sw1 j k \<and> in_range rs1 j k"
      using r by (simp add: same_form_in_range [OF form1(1)] same_form_in_range [OF form1(2)])
    show "point_value self [get2 g1 j k, get2 g2 j k] = Inr (get2 sw j k, get2 rs j k)"
    proof (cases "k \<in> set iis")
      case True
      then show ?thesis using vals j r1 by blast
    next
      case False
      then have ki: "k = i" using k by simp
      have "get2 sw j i = get2 sw1 j i" "get2 rs j i = get2 rs1 j i"
        using keep False ki by blast+
      then show ?thesis using vals1 j r ki by simp
    qed
  qed
  have 4: "\<forall>j' i'. j' \<notin> set js \<or> i' \<notin> set (i # iis) \<longrightarrow>
                 get2 sw j' i' = get2 switches j' i' \<and> get2 rs j' i' = get2 resonances j' i'"
  proof (intro allI impI)
    fix j' i' assume h: "j' \<notin> set js \<or> i' \<notin> set (i # iis)"
    then have "j' \<notin> set js \<or> i' \<notin> set iis" and "j' \<notin> set js \<or> i' \<noteq> i" by auto
    then show "get2 sw j' i' = get2 switches j' i' \<and> get2 rs j' i' = get2 resonances j' i'"
      using keep keep1 by simp
  qed
  show ?case
    by (rule exI [of _ sw], rule exI [of _ rs]) (intro conjI 1 2 3 4)
qed

lemma scan_2d_outer_fail:
  assumes "\<forall>i\<in>set ipre. \<forall>j\<in>set (pre @ j # post). \<exists>v. point_value self [get2 g1 j i, get2 g2 j i] = Inr v"
    and "\<forall>j\<in>set pre. \<exists>v. point_value self [get2 g1 j i, get2 g2 j i] = Inr v"
    and "point_value self [get2 g1 j i, get2 g2 j i] = Inl e"
  shows "scan_2d_outer self g1 g2 (ipre @ i # ipost) (pre @ j # post) switches resonances calls
           = (Inl e,
              calls @ concat (map (\<lambda>i. map (\<lambda>j. [get2 g1 j i, get2 g2 j i]) (pre @ j # post)) ipre)
                    @ map (\<lambda>j. [get2 g1 j i, get2 g2 j i]) (pre @ [j]))"
  using assms(1)
proof (induction ipre arbitrary: switches resonances calls)
  case Nil
  show ?case
    using scan_2d_inner_fail [OF assms(2,3), of post switches resonances calls] by simp
next
  case (Cons k ipre)
  have "\<forall>j\<in>set (pre @ j # post). \<exists>v. point_value self [get2 g1 j k, get2 g2 j k] = Inr v"
    using Cons.prems by simp
  from scan_2d_inner_ok [OF this, of switches resonances calls] obtain sw1 rs1 where
    run1: "scan_2d_inner self g1 g2 k (pre @ j # post) switches resonances calls
            = (Inr (sw1, rs1), calls @ map (\<lambda>j. [get2 g1 j k, get2 g2 j k]) (pre @ j # post))"
    by blast
  have "\<forall>i\<in>set ipre. \<forall>j\<in>set (pre @ j # post). \<exists>v. point_value self [get2 g1 j i, get2 g2 j i] = Inr v"
    using Cons.prems by simp
  from Cons.IH [OF this] show ?case
    by (simp add: run1)
qed

lemma model_fail_point: "model_func self args = Inl e \<Longrightarrow> point_value self args = Inl e"
  by (simp add: point_value_def)

lemma meshgrid_get2:
  assumes "j < length y" and "i < length x"
  shows "get2 (fst (np_meshgrid x y)) j i = x ! i" and "get2 (snd (np_meshgrid x y)) j i = y ! j"
  using assms by (simp_all add: np_meshgrid_def get2_def)

lemma meshgrid_shape:
  "shape (fst (np_meshgrid x y)) = (length y, length x)"
  "shape (snd (np_meshgrid x y)) = (length y, length x)"
  "map length (cells (fst (np_meshgrid x y))) = replicate (length y) (length x)"
  "map length (cells (snd (np_meshgrid x y))) = replicate (length y) (length x)"
  by (simp_all add: np_meshgrid_def map_replicate_const comp_def)

lemma zeros_like_shape:
  "shape (np_zeros_like a) = shape a"
  "map length (cells (np_zeros_like a)) = replicate (fst (shape a)) (snd (shape a))"
  by (simp_all add: np_zeros_like_def)

lemma zeros_like_in_range:
  "in_range (np_zeros_like a) j i \<longleftrightarrow> j < fst (shape a) \<and> i < snd (shape a)"
  by (auto simp: in_range_def np_zeros_like_def)

lemma scan_2d_ok:
  assumes linA: "np_linspace loA hiA nA = Inr pA" and linB: "np_linspace loB hiB nB = Inr pB"
    and ok: "\<forall>i<length pA. \<forall>j<length pB. \<exists>v. point_value self [pA ! i, pB ! j] = Inr v"
  shows "\<exists>sw rs.
           scan_2d self (loA, hiA) (loB, hiB) (nA, nB)
             = (Inr (fst (np_meshgrid pA pB), snd (np_meshgrid pA pB), sw, rs),
                self\<lparr> grid_points := Some (fst (np_meshgrid pA pB), snd (np_meshgrid pA pB)),
                      switch_values := Some sw, resonance_values := Some rs \<rparr>,
                concat (map (\<lambda>i. column_calls pA pB i (length pB)) [0..<length pA]))
         \<and> shape sw = (length pB, length pA) \<and> shape rs = (length pB, length pA)
         \<and> map length (cells sw) = replicate (length pB) (length pA)
         \<and> map length (cells rs) = replicate (length pB) (length pA)
         \<and> (\<forall>j<length pB. \<forall>i<length pA.
                point_value self [pA ! i, pB ! j] = Inr (get2 sw j i, get2 rs j i))"
proof -
  define g1 where "g1 = fst (np_meshgrid pA pB)"
  define g2 where "g2 = snd (np_meshgrid pA pB)"
  define z where "z = np_zeros_like g1"
  have lenA: "length pA = nat nA" and lenB: "length pB = nat nB"
    using linA linB by (simp_all add: linspace_length)
  have g: "get2 g1 j i = pA ! i" "get2 g2 j i = pB ! j" if "j < length pB" "i < length pA" for i j
    using that by (simp_all add: g1_def g2_def meshgrid_get2)
  have shz: "shape z = (length pB, length pA)"
    and mlz: "map length (cells z) = replicate (length pB) (length pA)"
    by (simp_all add: z_def g1_def zeros_like_shape meshgrid_shape)
  have rz: "in_range z j i \<longleftrightarrow> j < length pB \<and> i < length pA" for i j
    by (simp add: z_def g1_def zeros_like_in_range meshgrid_shape)
  have "\<forall>i\<in>set [0..<length pA]. \<forall>j\<in>set [0..<length pB].
          \<exists>v. point_value self [get2 g1 j i, get2 g2 j i] = Inr v"
    using ok g by simp
  from scan_2d_outer_ok [OF this, of z z "[]"] obtain sw rs where
    run: "scan_2d_outer self g1 g2 [0..<length pA] [0..<length pB] z z []
            = (Inr (sw, rs),
               concat (map (\<lambda>i. map (\<lambda>j. [get2 g1 j i, get2 g2 j i]) [0..<length pB]) [0..<length pA]))"
    and form: "same_form sw z" "same_form rs z"
    and vals: "\<forall>i\<in>set [0..<length pA]. \<forall>j\<in>set [0..<length pB]. in_range z j i \<and> in_range z j i \<longrightarrow>
                 point_value self [get2 g1 j i, get2 g2 j i] = Inr (get2 sw j i, get2 rs j i)"
    by auto
  have calls: "concat (map (\<lambda>i. map (\<lambda>j. [get2 g1 j i, get2 g2 j i]) [0..<length pB]) [0..<length pA])
             = concat (map (\<lambda>i. column_calls pA pB i (length pB)) [0..<length pA])"
    by (rule arg_cong [where f = concat]) (simp add: column_calls_def g)
  have 1: "scan_2d self (loA, hiA) (loB, hiB) (nA, nB)
             = (Inr (g1, g2, sw, rs),
                self\<lparr> grid_points := Some (g1, g2),
                      switch_values := Some sw, resonance_values := Some rs \<rparr>,
                concat (map (\<lambda>i. column_calls pA pB i (length pB)) [0..<length pA]))"
    using run calls lenA lenB
    by (simp add: scan_2d_def linA linB Let_def g1_def [symmetric] g2_def [symmetric] z_def [symmetric])
  have 2: "shape sw = (length pB, length pA)" "shape rs = (length pB, length pA)"
    "map length (cells sw) = replicate (length pB) (length pA)"
    "map length (cells rs) = replicate (length pB) (length pA)"
    using form shz mlz by (simp_all add: same_form_def)
  have 3: "\<forall>j<length pB. \<forall>i<length pA.
             point_value self [pA ! i, pB ! j] = Inr (get2 sw j i, get2 rs j i)"
  proof (intro allI impI)
    fix j i assume ji: "j < length pB" "i < length pA"
    then have "point_value self [get2 g1 j i, get2 g2 j i] = Inr (get2 sw j i, get2 rs j i)"
      using vals rz by simp
    then show "point_value self [pA ! i, pB ! j] = Inr (get2 sw j i, get2 rs j i)"
      using g ji by simp
  qed
  show ?thesis
    unfolding g1_def [symmetric] g2_def [symmetric]
    by (rule exI [of _ sw], rule exI [of _ rs]) (intro conjI 1 2 3)
qed

lemma upt_split: "i < n \<Longrightarrow> [0..<n] = [0..<i] @ i # [Suc i..<n]"
  by (metis less_imp_le_nat upt_add_eq_append upt_conv_Cons le0 le_add_diff_inverse plus_nat.add_0)

lemma scan_2d_fail:
  assumes linA: "np_linspace loA hiA nA = Inr pA" and linB: "np_linspace loB hiB nB = Inr pB"
    and i: "i < length pA" and j: "j < length pB"
    and before: "\<forall>i'<i. \<forall>j'<length pB. \<exists>v. point_value self [pA ! i', pB ! j'] = Inr v"
    and column: "\<forall>j'<j. \<exists>v. point_value self [pA ! i, pB ! j'] = Inr v"
    and fail: "point_value self [pA ! i, pB ! j] = Inl e"
  shows "scan_2d self (loA, hiA) (loB, hiB) (nA, nB)
           = (Inl e, self,
              concat (map (\<lambda>i'. column_calls pA pB i' (length pB)) [0..<i])
              @ column_calls pA pB i (Suc j))"
proof -
  define g1 where "g1 = fst (np_meshgrid pA pB)"
  define g2 where "g2 = snd (np_meshgrid pA pB)"
  define z where "z = np_zeros_like g1"
  have lenA: "length pA = nat nA" and lenB: "length pB = nat nB"
    using linA linB by (simp_all add: linspace_length)
  have g: "get2 g1 j i = pA ! i" "get2 g2 j i = pB ! j" if "j < length pB" "i < length pA" for i j
    using that by (simp_all add: g1_def g2_def meshgrid_get2)
  have splitA: "[0..<length pA] = [0..<i] @ i # [Suc i..<length pA]"
    and splitB: "[0..<length pB] = [0..<j] @ j # [Suc j..<length pB]"
    using i j by (simp_all add: upt_split)
  have a: "\<forall>i'\<in>set [0..<i]. \<forall>j'\<in>set ([0..<j] @ j # [Suc j..<length pB]).
             \<exists>v. point_value self [get2 g1 j' i', get2 g2 j' i'] = Inr v"
    unfolding splitB [symmetric] using before g i by simp
  have b: "\<forall>j'\<in>set [0..<j]. \<exists>v. point_value self [get2 g1 j' i, get2 g2 j' i] = Inr v"
    using column g i j by simp
  have c: "point_value self [get2 g1 j i, get2 g2 j i] = Inl e"
    using fail g i j by simp
  have run: "scan_2d_outer self g1 g2 [0..<length pA] [0..<length pB] z z []
           = (Inl e,
              [] @ concat (map (\<lambda>i. map (\<lambda>j. [get2 g1 j i, get2 g2 j i]) [0..<length pB]) [0..<i])
                 @ map (\<lambda>j. [get2 g1 j i, get2 g2 j i]) ([0..<j] @ [j]))"
    using scan_2d_outer_fail [OF a b c, of "[Suc i..<length pA]" z z "[]"]
    by (simp only: splitA [symmetric] splitB [symmetric])
  have c1: "concat (map (\<lambda>i. map (\<lambda>j. [get2 g1 j i, get2 g2 j i]) [0..<length pB]) [0..<i])
          = concat (map (\<lambda>i'. column_calls pA pB i' (length pB)) [0..<i])"
    by (rule arg_cong [where f = concat]) (use i in \<open>simp add: column_calls_def g\<close>)
  have c2: "map (\<lambda>j. [get2 g1 j i, get2 g2 j i]) ([0..<j] @ [j]) = column_calls pA pB i (Suc j)"
    using i j by (simp add: column_calls_def g)
  have run': "scan_2d_outer self g1 g2 [0..<length pA] [0..<length pB] z z []
           = (Inl e, concat (map (\<lambda>i'. column_calls pA pB i' (length pB)) [0..<i])
                     @ column_calls pA pB i (Suc j))"
    using run by (simp only: c1 c2 append_Nil)
  show ?thesis
    using run' lenA lenB
    by (simp add: scan_2d_def linA linB Let_def g1_def [symmetric] g2_def [symmetric]
          z_def [symmetric])
qed

lemma linspace_2: "np_linspace 0 1 2 = Inr [0, 1]"
  by (simp add: np_linspace_def upt_conv_Cons)

lemma linspace_3: "np_linspace 0 2 3 = Inr [0, 1, 2]"
  by (simp add: np_linspace_def upt_conv_Cons)

lemma linspace_4: "np_linspace 0 3 4 = Inr [0, 1, 2, 3]"
  by (simp add: np_linspace_def upt_conv_Cons)

lemma residual_single:
  "\<exists>r. compute_residual_norm [Fin a] [Fin b] None = Inr r"
  by (simp add: compute_residual_norm_def np_binary_def broadcast_shape_def)

lemma point_single:
  "model_func self args = Inr [Fin b] \<Longrightarrow> data self = [Fin a] \<Longrightarrow> errors self = None
   \<Longrightarrow> \<exists>v. point_value self args = Inr v"
  using residual_single [of a b] by (auto simp: point_value_def)

lemma parabola_point1:
  "\<exists>v. point_value (LatencyFreeScanner_init parabola_model [Fin 4] None None None) [x] = Inr v"
  by (rule point_single [of _ _ "x * x" 4]) (simp_all add: LatencyFreeScanner_init_def)

lemma parabola_point2:
  "\<exists>v. point_value (LatencyFreeScanner_init parabola_model [Fin 4] None None None) [x, y] = Inr v"
  by (rule point_single [of _ _ "x * x + y * y" 4]) (simp_all add: LatencyFreeScanner_init_def)

lemma guarded_ok1:
  "x \<le> 1 \<Longrightarrow> \<exists>v. point_value (LatencyFreeScanner_init guarded_model [Fin 4] None None None) [x] = Inr v"
  by (rule point_single [of _ _ "x * x" 4]) (simp_all add: LatencyFreeScanner_init_def)

lemma guarded_ok2:
  "x < 1 \<or> y < 1 \<Longrightarrow>
   \<exists>v. point_value (LatencyFreeScanner_init guarded_model [Fin 4] None None None) [x, y] = Inr v"
  by (rule point_single [of _ _ "x * y" 4]) (simp_all add: LatencyFreeScanner_init_def)

text \<open>
  Claim C2, as it is written, fails for \<open>scan_2d\<close>: the fields have \<open>nB\<close> rows and \<open>nA\<close>
  columns, not \<open>nA\<close> rows and \<open>nB\<close> columns, since \<open>np.meshgrid\<close> puts its first argument
  along the columns. With \<open>nA = 2\<close> and \<open>nB = 3\<close> the switch field and the first coordinate
  field have the shape \<open>(3, 2)\<close>: three rows of two entries.
\<close>

theorem scan_2d_shape_counterexample:
  "map_sum id (shape \<circ> fst \<circ> snd \<circ> snd)
     (fst (scan_2d (LatencyFreeScanner_init parabola_model [Fin 4] None None None) (0, 1) (0, 2) (2, 3)))
     = Inr (3, 2)
   \<and> map_sum id (map length \<circ> cells \<circ> fst \<circ> snd \<circ> snd)
     (fst (scan_2d (LatencyFreeScanner_init parabola_model [Fin 4] None None None) (0, 1) (0, 2) (2, 3)))
     = Inr [2, 2, 2]
   \<and> map_sum id (shape \<circ> fst)
     (fst (scan_2d (LatencyFreeScanner_init parabola_model [Fin 4] None None None) (0, 1) (0, 2) (2, 3)))
     = Inr (3, 2)"
proof -
  have "\<forall>i<length [0, 1 :: real]. \<forall>j<length [0, 1, 2 :: real].
          \<exists>v. point_value (LatencyFreeScanner_init parabola_model [Fin 4] None None None)
                 [[0, 1] ! i, [0, 1, 2] ! j] = Inr v"
    using parabola_point2 by blast
  from scan_2d_ok [OF linspace_2 linspace_3 this] show ?thesis
    by (auto simp: meshgrid_shape numeral_3_eq_3)
qed

text \<open>
  Claim C2, amended. When the point count is not negative and the evaluation of every
  grid point succeeds, \<open>scan_1d\<close> returns the grid and two more sequences, each of length
  exactly \<open>n\<close>, entry \<open>i\<close> of the two holding the results for grid value \<open>i\<close>. Under the
  same conditions \<open>scan_2d\<close> returns two coordinate fields, the switch field and the
  resonance field, all of shape \<open>nB x nA\<close> (\<open>nB\<close> rows of \<open>nA\<close> entries), indexed alike:
  entry \<open>[j][i]\<close> of the coordinate fields is the \<open>i\<close>-th value of the first parameter
  and the \<open>j\<close>-th value of the second, and entry \<open>[j][i]\<close> of the value fields holds the
  results for that point. So the row is the second axis and the column the first.
\<close>

theorem scan_shapes:
  "(np_linspace lo hi n = Inr ps \<and> (\<forall>p\<in>set ps. \<exists>v. point_value self [p] = Inr v) \<longrightarrow>
      (\<exists>ss rs. fst (scan_1d self (lo, hi) n) = Inr (ps, ss, rs)
          \<and> length ps = nat n \<and> length ss = nat n \<and> length rs = nat n
          \<and> (\<forall>i<nat n. point_value self [ps ! i] = Inr (ss ! i, rs ! i))))
   \<and> (np_linspace loA hiA nA = Inr pA \<and> np_linspace loB hiB nB = Inr pB
        \<and> (\<forall>i<length pA. \<forall>j<length pB. \<exists>v. point_value self [pA ! i, pB ! j] = Inr v) \<longrightarrow>
      (\<exists>g1 g2 sw rs. fst (scan_2d self (loA, hiA) (loB, hiB) (nA, nB)) = Inr (g1, g2, sw, rs)
          \<and> shape g1 = (nat nB, nat nA) \<and> shape g2 = (nat nB, nat nA)
          \<and> shape sw = (nat nB, nat nA) \<and> shape rs = (nat nB, nat nA)
          \<and> map length (cells g1) = replicate (nat nB) (nat nA)
          \<and> map length (cells g2) = replicate (nat nB) (nat nA)
          \<and> map length (cells sw) = replicate (nat nB) (nat nA)
          \<and> map length (cells rs) = replicate (nat nB) (nat nA)
          \<and> (\<forall>j<nat nB. \<forall>i<nat nA.
                 get2 g1 j i = pA ! i \<and> get2 g2 j i = pB ! j
               \<and> point_value self [get2 g1 j i, get2 g2 j i] = Inr (get2 sw j i, get2 rs j i))))"
proof (intro conjI impI)
  assume "np_linspace lo hi n = Inr ps \<and> (\<forall>p\<in>set ps. \<exists>v. point_value self [p] = Inr v)"
  then have lin: "np_linspace lo hi n = Inr ps"
    and ok: "\<forall>p\<in>set ps. \<exists>v. point_value self [p] = Inr v" by simp_all
  from scan_1d_ok [OF lin ok]
  show "\<exists>ss rs. fst (scan_1d self (lo, hi) n) = Inr (ps, ss, rs)
          \<and> length ps = nat n \<and> length ss = nat n \<and> length rs = nat n
          \<and> (\<forall>i<nat n. point_value self [ps ! i] = Inr (ss ! i, rs ! i))"
    by fastforce
next
  assume "np_linspace loA hiA nA = Inr pA \<and> np_linspace loB hiB nB = Inr pB
        \<and> (\<forall>i<length pA. \<forall>j<length pB. \<exists>v. point_value self [pA ! i, pB ! j] = Inr v)"
  then have linA: "np_linspace loA hiA nA = Inr pA" and linB: "np_linspace loB hiB nB = Inr pB"
    and ok: "\<forall>i<length pA. \<forall>j<length pB. \<exists>v. point_value self [pA ! i, pB ! j] = Inr v"
    by simp_all
  have lenA: "length pA = nat nA" and lenB: "length pB = nat nB"
    using linA linB by (simp_all add: linspace_length)
  define g1 where "g1 = fst (np_meshgrid pA pB)"
  define g2 where "g2 = snd (np_meshgrid pA pB)"
  from scan_2d_ok [OF linA linB ok] obtain sw rs where
    run: "fst (scan_2d self (loA, hiA) (loB, hiB) (nA, nB)) = Inr (g1, g2, sw, rs)"
    and sh: "shape sw = (nat nB, nat nA)" "shape rs = (nat nB, nat nA)"
      "map length (cells sw) = replicate (nat nB) (nat nA)"
      "map length (cells rs) = replicate (nat nB) (nat nA)"
    and vals: "\<forall>j<nat nB. \<forall>i<nat nA.
                point_value self [pA ! i, pB ! j] = Inr (get2 sw j i, get2 rs j i)"
    unfolding g1_def g2_def lenA lenB by fastforce
  have gsh: "shape g1 = (nat nB, nat nA)" "shape g2 = (nat nB, nat nA)"
    "map length (cells g1) = replicate (nat nB) (nat nA)"
    "map length (cells g2) = replicate (nat nB) (nat nA)"
    by (simp_all add: g1_def g2_def meshgrid_shape lenA lenB)
  have pts: "\<forall>j<nat nB. \<forall>i<nat nA.
                 get2 g1 j i = pA ! i \<and> get2 g2 j i = pB ! j
               \<and> point_value self [get2 g1 j i, get2 g2 j i] = Inr (get2 sw j i, get2 rs j i)"
    using vals by (simp add: g1_def g2_def meshgrid_get2 lenA lenB)
  show "\<exists>g1 g2 sw rs. fst (scan_2d self (loA, hiA) (loB, hiB) (nA, nB)) = Inr (g1, g2, sw, rs)
          \<and> shape g1 = (nat nB, nat nA) \<and> shape g2 = (nat nB, nat nA)
          \<and> shape sw = (nat nB, nat nA) \<and> shape rs = (nat nB, nat nA)
          \<and> map length (cells g1) = replicate (nat nB) (nat nA)
          \<and> map length (cells g2) = replicate (nat nB) (nat nA)
          \<and> map length (cells sw) = replicate (nat nB) (nat nA)
          \<and> map length (cells rs) = replicate (nat nB) (nat nA)
          \<and> (\<forall>j<nat nB. \<forall>i<nat nA.
                 get2 g1 j i = pA ! i \<and> get2 g2 j i = pB ! j
               \<and> point_value self [get2 g1 j i, get2 g2 j i] = Inr (get2 sw j i, get2 rs j i))"
    by (rule exI [of _ g1], rule exI [of _ g2], rule exI [of _ sw], rule exI [of _ rs])
       (intro conjI run sh gsh pts)
qed

text \<open>
  The parabola of \<open>test_scanner\<close> against the observation \<open>[4.0]\<close>: three points on
  \<open>[0, 2]\<close>, and a grid of two by three points.
\<close>

theorem scan_shapes_witness:
  "np_linspace 0 2 3 = Inr [0, 1, 2]
   \<and> (\<exists>ss rs. fst (scan_1d (LatencyFreeScanner_init parabola_model [Fin 4] None None None) (0, 2) 3)
                 = Inr ([0, 1, 2], ss, rs)
          \<and> length ss = 3 \<and> length rs = 3)
   \<and> np_linspace 0 1 2 = Inr [0, 1]
   \<and> (\<exists>g1 g2 sw rs.
          fst (scan_2d (LatencyFreeScanner_init parabola_model [Fin 4] None None None) (0, 1) (0, 2) (2, 3))
            = Inr (g1, g2, sw, rs)
          \<and> shape sw = (3, 2) \<and> map length (cells sw) = [2, 2, 2]
          \<and> get2 g1 2 1 = 1 \<and> get2 g2 2 1 = 2)"
proof -
  let ?S = "LatencyFreeScanner_init parabola_model [Fin 4] None None None"
  have a: "\<forall>p\<in>set [0, 1, 2 :: real]. \<exists>v. point_value ?S [p] = Inr v"
    using parabola_point1 by blast
  have b: "\<forall>i<length [0, 1 :: real]. \<forall>j<length [0, 1, 2 :: real].
             \<exists>v. point_value ?S [[0, 1] ! i, [0, 1, 2] ! j] = Inr v"
    using parabola_point2 by blast
  have "\<exists>ss rs. fst (scan_1d ?S (0, 2) 3) = Inr ([0, 1, 2], ss, rs)
          \<and> length [0, 1, 2 :: real] = nat 3 \<and> length ss = nat 3 \<and> length rs = nat 3
          \<and> (\<forall>i<nat 3. point_value ?S [[0, 1, 2] ! i] = Inr (ss ! i, rs ! i))"
    using scan_shapes [where lo = 0 and hi = 2 and n = 3 and ps = "[0, 1, 2]" and self = ?S,
        THEN conjunct1] linspace_3 a
    by fast
  then have one: "\<exists>ss rs. fst (scan_1d ?S (0, 2) 3) = Inr ([0, 1, 2], ss, rs)
          \<and> length ss = 3 \<and> length rs = 3"
    by auto
  have "\<exists>g1 g2 sw rs. fst (scan_2d ?S (0, 1) (0, 2) (2, 3)) = Inr (g1, g2, sw, rs)
          \<and> shape sw = (nat 3, nat 2) \<and> map length (cells sw) = replicate (nat 3) (nat 2)
          \<and> (\<forall>j<nat 3. \<forall>i<nat 2. get2 g1 j i = [0, 1] ! i \<and> get2 g2 j i = [0, 1, 2] ! j)"
    using scan_shapes [where self = ?S and loA = 0 and hiA = 1 and nA = 2 and pA = "[0, 1]"
        and loB = 0 and hiB = 2 and nB = 3 and pB = "[0, 1, 2]", THEN conjunct2]
      linspace_2 linspace_3 b
    by fast
  then obtain g1 g2 sw rs where
    r: "fst (scan_2d ?S (0, 1) (0, 2) (2, 3)) = Inr (g1, g2, sw, rs)"
    and s: "shape sw = (nat 3, nat 2)" "map length (cells sw) = replicate (nat 3) (nat 2)"
    and g: "\<forall>j<nat 3. \<forall>i<nat 2. get2 g1 j i = [0, 1] ! i \<and> get2 g2 j i = [0, 1, 2] ! j"
    by blast
  have "get2 g1 2 1 = [0, 1] ! 1 \<and> get2 g2 2 1 = [0, 1, 2] ! 2"
    using g by simp
  then have "get2 g1 2 1 = 1 \<and> get2 g2 2 1 = 2" by simp
  then have two: "\<exists>g1 g2 sw rs. fst (scan_2d ?S (0, 1) (0, 2) (2, 3)) = Inr (g1, g2, sw, rs)
          \<and> shape sw = (3, 2) \<and> map length (cells sw) = [2, 2, 2]
          \<and> get2 g1 2 1 = 1 \<and> get2 g2 2 1 = 2"
    using r s by (auto simp: numeral_3_eq_3)
  show ?thesis using linspace_3 linspace_2 one two by blast
qed

text \<open>
  Claim C8. If the model function raises at a grid point, and the points before it in the
  order of the scan were evaluated without error, then \<open>scan_1d\<close> and \<open>scan_2d\<close> end with
  that exception: no arrays are returned, the scanner object is the one the scan started
  with, and the calls made to the model function are those for the points up to the
  failing one, which is the last. \<open>scan_2d\<close> visits the grid column by column: all values
  of the second parameter for the first value of the first, and so on.
\<close>

theorem scan_failure_propagates:
  "(np_linspace lo hi n = Inr ps \<and> k < length ps
      \<and> (\<forall>i<k. \<exists>v. point_value self [ps ! i] = Inr v)
      \<and> model_func self [ps ! k] = Inl e \<longrightarrow>
      scan_1d self (lo, hi) n = (Inl e, self, map (\<lambda>p. [p]) (take (Suc k) ps)))
   \<and> (np_linspace loA hiA nA = Inr pA \<and> np_linspace loB hiB nB = Inr pB
      \<and> i < length pA \<and> j < length pB
      \<and> (\<forall>i'<i. \<forall>j'<length pB. \<exists>v. point_value self [pA ! i', pB ! j'] = Inr v)
      \<and> (\<forall>j'<j. \<exists>v. point_value self [pA ! i, pB ! j'] = Inr v)
      \<and> model_func self [pA ! i, pB ! j] = Inl e' \<longrightarrow>
      scan_2d self (loA, hiA) (loB, hiB) (nA, nB)
        = (Inl e', self,
           concat (map (\<lambda>i'. column_calls pA pB i' (length pB)) [0..<i])
           @ column_calls pA pB i (Suc j)))"
proof (intro conjI impI)
  assume h: "np_linspace lo hi n = Inr ps \<and> k < length ps
      \<and> (\<forall>i<k. \<exists>v. point_value self [ps ! i] = Inr v)
      \<and> model_func self [ps ! k] = Inl e"
  then have "point_value self [ps ! k] = Inl e" by (simp add: model_fail_point)
  with h show "scan_1d self (lo, hi) n = (Inl e, self, map (\<lambda>p. [p]) (take (Suc k) ps))"
    by (intro scan_1d_fail) simp_all
next
  assume h: "np_linspace loA hiA nA = Inr pA \<and> np_linspace loB hiB nB = Inr pB
      \<and> i < length pA \<and> j < length pB
      \<and> (\<forall>i'<i. \<forall>j'<length pB. \<exists>v. point_value self [pA ! i', pB ! j'] = Inr v)
      \<and> (\<forall>j'<j. \<exists>v. point_value self [pA ! i, pB ! j'] = Inr v)
      \<and> model_func self [pA ! i, pB ! j] = Inl e'"
  then have "point_value self [pA ! i, pB ! j] = Inl e'" by (simp add: model_fail_point)
  with h show "scan_2d self (loA, hiA) (loB, hiB) (nA, nB)
        = (Inl e', self,
           concat (map (\<lambda>i'. column_calls pA pB i' (length pB)) [0..<i])
           @ column_calls pA pB i (Suc j))"
    by (intro scan_2d_fail) simp_all
qed

text \<open>
  A model that raises beyond a bound. On \<open>[0, 3]\<close> with four points it raises at the third
  point, and the fourth is never evaluated; on the grid of two by three points it raises
  at the point \<open>(1, 1)\<close>, the fifth in the order of the scan, and \<open>(1, 2)\<close> is never
  evaluated.
\<close>

theorem scan_failure_propagates_witness:
  "scan_1d (LatencyFreeScanner_init guarded_model [Fin 4] None None None) (0, 3) 4
     = (Inl (Raised 1), LatencyFreeScanner_init guarded_model [Fin 4] None None None, [[0], [1], [2]])
   \<and> scan_2d (LatencyFreeScanner_init guarded_model [Fin 4] None None None) (0, 1) (0, 2) (2, 3)
     = (Inl (Raised 1), LatencyFreeScanner_init guarded_model [Fin 4] None None None,
        [[0, 0], [0, 1], [0, 2], [1, 0], [1, 1]])"
proof -
  let ?S = "LatencyFreeScanner_init guarded_model [Fin 4] None None None"
  have a1: "(2::nat) < length [0, 1, 2, 3 :: real]" by simp
  have b1: "\<forall>i<2. \<exists>v. point_value ?S [[0, 1, 2, 3] ! i] = Inr v"
  proof (intro allI impI)
    fix i :: nat assume "i < 2"
    then have "[0, 1, 2, 3] ! i \<le> (1::real)"
      by (auto simp: less_Suc_eq numeral_2_eq_2)
    then show "\<exists>v. point_value ?S [[0, 1, 2, 3] ! i] = Inr v" by (rule guarded_ok1)
  qed
  have c1: "model_func ?S [[0, 1, 2, 3] ! 2] = Inl (Raised 1)"
    by (simp add: LatencyFreeScanner_init_def)
  have one: "scan_1d ?S (0, 3) 4 = (Inl (Raised 1), ?S, [[0], [1], [2]])"
    using scan_failure_propagates [where lo = 0 and hi = 3 and n = 4 and ps = "[0, 1, 2, 3]"
        and k = 2 and self = ?S and e = "Raised 1", THEN conjunct1] linspace_4 a1 b1 c1
    by (simp add: numeral_2_eq_2)
  have i: "(1::nat) < length [0, 1 :: real]" and j: "(1::nat) < length [0, 1, 2 :: real]" by simp_all
  have a: "\<forall>i'<1. \<forall>j'<length [0, 1, 2 :: real]. \<exists>v. point_value ?S [[0, 1] ! i', [0, 1, 2] ! j'] = Inr v"
  proof (intro allI impI)
    fix i' j' :: nat assume "i' < 1"
    then have "[0, 1] ! i' < (1::real) \<or> [0, 1, 2] ! j' < (1::real)" by simp
    then show "\<exists>v. point_value ?S [[0, 1] ! i', [0, 1, 2] ! j'] = Inr v" by (rule guarded_ok2)
  qed
  have b: "\<forall>j'<1. \<exists>v. point_value ?S [[0, 1] ! 1, [0, 1, 2] ! j'] = Inr v"
  proof (intro allI impI)
    fix j' :: nat assume "j' < 1"
    then have "[0, 1] ! 1 < (1::real) \<or> [0, 1, 2] ! j' < (1::real)" by simp
    then show "\<exists>v. point_value ?S [[0, 1] ! 1, [0, 1, 2] ! j'] = Inr v" by (rule guarded_ok2)
  qed
  have c: "model_func ?S [[0, 1] ! 1, [0, 1, 2] ! 1] = Inl (Raised 1)"
    by (simp add: LatencyFreeScanner_init_def)
  have "scan_2d ?S (0, 1) (0, 2) (2, 3)
          = (Inl (Raised 1), ?S,
             concat (map (\<lambda>i'. column_calls [0, 1] [0, 1, 2] i' (length [0, 1, 2 :: real])) [0..<1])
             @ column_calls [0, 1] [0, 1, 2] 1 (Suc 1))"
    using scan_failure_propagates [where self = ?S and loA = 0 and hiA = 1 and nA = 2
        and pA = "[0, 1]" and loB = 0 and hiB = 2 and nB = 3 and pB = "[0, 1, 2]"
        and i = 1 and j = 1 and e' = "Raised 1", THEN conjunct2]
      linspace_2 linspace_3 i j a b c
    by fast
  then have two: "scan_2d ?S (0, 1) (0, 2) (2, 3)
          = (Inl (Raised 1), ?S, [[0, 0], [0, 1], [0, 2], [1, 0], [1, 1]])"
    by (simp add: column_calls_def numeral_3_eq_3 upt_conv_Cons)
  show ?thesis using one two by simp
qed

section \<open>Properties of the summaries\<close>

lemma shape_array2_map: "shape (array2_map f a) = shape a"
  by (simp add: array2_map_def)

lemma shape_array2_eq1: "shape (array2_eq1 a) = shape a"
  by (simp add: array2_eq1_def shape_array2_map)

lemma cells_array2_map: "concat (cells (array2_map f a)) = map f (concat (cells a))"
  by (simp add: array2_map_def map_concat)

lemma no_true: "length (filter (\<lambda>b. b) bs) = 0 \<Longrightarrow> \<forall>b\<in>set bs. \<not> b"
  by (simp add: filter_empty_conv)

lemma no_true_ex: "length (filter (\<lambda>b. b) bs) = 0 \<Longrightarrow> \<not> list_ex (\<lambda>b. b) bs"
  by (simp add: filter_empty_conv list_ex_iff)

lemma no_true_zip: "length (filter (\<lambda>b. b) bs) = 0 \<Longrightarrow> filter snd (zip xs bs) = []"
proof -
  assume "length (filter (\<lambda>b. b) bs) = 0"
  then have n: "\<forall>b\<in>set bs. \<not> b" by (rule no_true)
  have "\<not> snd p" if "p \<in> set (zip xs bs)" for p
  proof -
    obtain x b where p: "p = (x, b)" by (cases p)
    then have "(x, b) \<in> set (zip xs bs)" using that by simp
    then have "b \<in> set bs" by (rule set_zip_rightD)
    then have "\<not> b" using n by blast
    then show ?thesis using p by simp
  qed
  then show ?thesis by (simp only: filter_empty_conv) blast
qed

lemma count0_any: "np_count msk = 0 \<Longrightarrow> \<not> np_any msk"
  unfolding np_count_def np_any_def by (rule no_true_ex)

lemma count0_index:
  assumes "np_count msk = 0" and "shape a = shape msk"
  shows "boolean_index a msk = Inr []"
proof -
  have "filter snd (zip (concat (cells a)) (concat (cells msk))) = []"
    using assms(1) unfolding np_count_def by (rule no_true_zip)
  then show ?thesis using assms(2) by (simp only: boolean_index_def) simp
qed

lemma boolean_index_ok: "shape a = shape msk \<Longrightarrow> \<exists>xs. boolean_index a msk = Inr xs"
  by (simp add: boolean_index_def)

lemma find_manifold_empty:
  assumes "switch_values self = Some sv" and "grid_points self = Some (ga, gb)"
    and "shape ga = shape sv" and "shape gb = shape sv"
    and "np_count (array2_eq1 sv) = 0"
  shows "find_manifold self = Inr ([], [])"
  using assms by (simp add: find_manifold_def count0_index shape_array2_eq1)

lemma analyze_geometry_empty:
  assumes "switch_values self = Some sv" and "grid_points self = Some (ga, gb)"
    and "shape ga = shape sv" and "shape gb = shape sv"
    and "np_count (array2_eq1 sv) = 0"
  shows "analyze_geometry self =
           Inr [''n_resonant_points'' \<mapsto> PyInt 0,
                ''total_points'' \<mapsto> PyInt (int (array2_size sv)),
                ''resonance_fraction'' \<mapsto> PyFloat (np_divide (Fin 0) (Fin (real (array2_size sv)))),
                ''manifold_size'' \<mapsto> PyInt 0]"
  using assms(1,5) find_manifold_empty [OF assms]
  by (simp add: analyze_geometry_def)

lemma find_pole_empty: "np_count msk = 0 \<Longrightarrow> find_pole msk gH gO = Inr None"
  by (simp add: find_pole_def count0_any)

lemma find_pole_ok:
  "shape gH = shape msk \<Longrightarrow> shape gO = shape msk \<Longrightarrow> \<exists>p. find_pole msk gH gO = Inr p"
  using boolean_index_ok [of gH msk] boolean_index_ok [of gO msk]
  by (auto simp: find_pole_def)

lemma dipole_planck_empty:
  assumes "np_count (array2_eq1 planck) = 0"
    and "shape gH = shape sn" and "shape gO = shape sn"
  shows "\<exists>p. find_dipole_structure planck sn gH gO
             = Inr \<lparr> planck_pole = None, supernova_pole = p,
                     dipole_distance = None, dipole_angle = None, overlap = None \<rparr>"
proof -
  obtain p where "find_pole (array2_eq1 sn) gH gO = Inr p"
    using find_pole_ok [of gH "array2_eq1 sn" gO] assms(2,3)
    by (auto simp: shape_array2_eq1)
  then show ?thesis
    using find_pole_empty [OF assms(1), of gH gO]
    by (simp add: find_dipole_structure_def)
qed

lemma dipole_supernova_empty:
  assumes "np_count (array2_eq1 sn) = 0"
    and "shape gH = shape planck" and "shape gO = shape planck"
  shows "\<exists>p. find_dipole_structure planck sn gH gO
             = Inr \<lparr> planck_pole = p, supernova_pole = None,
                     dipole_distance = None, dipole_angle = None, overlap = None \<rparr>"
proof -
  obtain p where "find_pole (array2_eq1 planck) gH gO = Inr p"
    using find_pole_ok [of gH "array2_eq1 planck" gO] assms(2,3)
    by (auto simp: shape_array2_eq1)
  then show ?thesis
    using find_pole_empty [OF assms(1), of gH gO]
    by (cases p) (simp_all add: find_dipole_structure_def)
qed

lemma all_cells:
  assumes "map length (cells a) = replicate r c" and "\<forall>j<r. \<forall>i<c. P (get2 a j i)"
  shows "\<forall>v\<in>set (concat (cells a)). P v"
proof
  fix v assume "v \<in> set (concat (cells a))"
  then obtain row where row: "row \<in> set (cells a)" and v: "v \<in> set row" by auto
  from row obtain j where j: "j < length (cells a)" "row = cells a ! j"
    by (auto simp: in_set_conv_nth)
  from v obtain i where i: "i < length row" "v = row ! i"
    by (auto simp: in_set_conv_nth)
  have "length (map length (cells a)) = length (replicate r c)"
    by (simp only: assms(1))
  then have r: "length (cells a) = r" by simp
  have "map length (cells a) ! j = replicate r c ! j"
    by (simp only: assms(1))
  then have c: "length row = c" using j r by simp
  have "P (get2 a j i)" using assms(2) i(1) j(1) r c by blast
  then show "P v" using i(2) j(2) by (simp add: get2_def)
qed

lemma count0_I:
  assumes "\<forall>v\<in>set (concat (cells a)). \<not> f v"
  shows "np_count (array2_map f a) = 0"
proof -
  have "filter (\<lambda>b. b) (map f (concat (cells a))) = []"
    using assms by (simp only: filter_empty_conv) auto
  then show ?thesis by (simp only: np_count_def cells_array2_map) simp
qed

lemma far_point:
  assumes "model_func self args = Inr [Fin m]" and "data self = [Fin d]" and "errors self = None"
    and "switch self = BesemerSwitch_init (Some (Fin 296)) (Some (Fin 1)) None"
    and "296 < \<bar>d - m\<bar>"
  shows "point_value self args = Inr (Fin 0, Fin (296 / \<bar>d - m\<bar>))"
proof -
  have r: "compute_residual_norm [Fin d] [Fin m] None = Inr (Fin \<bar>d - m\<bar>)"
    by (simp add: compute_residual_norm_def np_binary_def broadcast_shape_def broadcast_to_def
          np_subtract_def np_sum_def)
  have m: "max \<bar>d - m\<bar> (1 / 10 ^ 10) = \<bar>d - m\<bar>"
    using assms(5) by simp
  have s: "resonance_strength (switch self) (Fin \<bar>d - m\<bar>) = Fin (296 / \<bar>d - m\<bar>)"
    using assms(5) m by (simp add: assms(4) BesemerSwitch_init_def resonance_strength_def np_maximum_Fin)
  have "296 / \<bar>d - m\<bar> < 1" using assms(5) by simp
  then have c: "BesemerSwitch_call (switch self) (Fin \<bar>d - m\<bar>) = 0"
    using s by (simp add: call_strength assms(4) BesemerSwitch_init_def)
  show ?thesis
    using r c s by (simp add: point_value_def assms(1-3))
qed

lemma zeros_like_cells: "v \<in> set (concat (cells (np_zeros_like a))) \<Longrightarrow> v = Fin 0"
  by (auto simp: np_zeros_like_def)

lemma zeros_like_count: "np_count (array2_eq1 (np_zeros_like a)) = 0"
  unfolding array2_eq1_def
proof (rule count0_I, intro ballI)
  fix v assume "v \<in> set (concat (cells (np_zeros_like a)))"
  then have "v = Fin 0" by (rule zeros_like_cells)
  then show "\<not> np_eq v (Fin 1)" by (simp add: np_eq_def)
qed

text \<open>
  A scan in which nothing resonates: the parabola against the observation \<open>[1000.0]\<close> on
  a grid of two by three points, where every residual is above 296.
\<close>

lemma far_scan:
  "\<exists>sw rs.
     fst (snd (scan_2d (LatencyFreeScanner_init parabola_model [Fin 1000] None None None)
                 (0, 1) (0, 2) (2, 3)))
       = (LatencyFreeScanner_init parabola_model [Fin 1000] None None None)
           \<lparr> grid_points := Some (fst (np_meshgrid [0, 1] [0, 1, 2]), snd (np_meshgrid [0, 1] [0, 1, 2])),
             switch_values := Some sw, resonance_values := Some rs \<rparr>
     \<and> shape sw = (3, 2) \<and> np_count (array2_eq1 sw) = 0"
proof -
  let ?S = "LatencyFreeScanner_init parabola_model [Fin 1000] None None None"
  have pt: "point_value ?S [[0, 1] ! i, [0, 1, 2] ! j]
              = Inr (Fin 0, Fin (296 / \<bar>1000 - ([0, 1] ! i * [0, 1] ! i + [0, 1, 2] ! j * [0, 1, 2] ! j)\<bar>))"
    if "i < 2" "j < 3" for i j :: nat
  proof (rule far_point)
    show "296 < \<bar>1000 - ([0, 1] ! i * [0, 1] ! i + [0, 1, 2] ! j * [0, 1, 2] ! j :: real)\<bar>"
      using that by (auto simp: less_Suc_eq numeral_2_eq_2 numeral_3_eq_3)
  qed (simp_all add: LatencyFreeScanner_init_def)
  have ok: "\<forall>i<length [0, 1 :: real]. \<forall>j<length [0, 1, 2 :: real].
              \<exists>v. point_value ?S [[0, 1] ! i, [0, 1, 2] ! j] = Inr v"
    using pt by simp
  from scan_2d_ok [OF linspace_2 linspace_3 ok] obtain sw rs where
    run: "scan_2d ?S (0, 1) (0, 2) (2, 3)
            = (Inr (fst (np_meshgrid [0, 1] [0, 1, 2]), snd (np_meshgrid [0, 1] [0, 1, 2]), sw, rs),
               ?S\<lparr> grid_points := Some (fst (np_meshgrid [0, 1] [0, 1, 2]), snd (np_meshgrid [0, 1] [0, 1, 2])),
                    switch_values := Some sw, resonance_values := Some rs \<rparr>,
               concat (map (\<lambda>i. column_calls [0, 1] [0, 1, 2] i (length [0, 1, 2 :: real]))
                        [0..<length [0, 1 :: real]]))"
    and sh: "shape sw = (length [0, 1, 2 :: real], length [0, 1 :: real])"
    and ml: "map length (cells sw) = replicate (length [0, 1, 2 :: real]) (length [0, 1 :: real])"
    and vals: "\<forall>j<length [0, 1, 2 :: real]. \<forall>i<length [0, 1 :: real].
                 point_value ?S [[0, 1] ! i, [0, 1, 2] ! j] = Inr (get2 sw j i, get2 rs j i)"
    by blast
  have "\<forall>j<length [0, 1, 2 :: real]. \<forall>i<length [0, 1 :: real]. \<not> np_eq (get2 sw j i) (Fin 1)"
  proof (intro allI impI)
    fix j i :: nat assume "j < length [0, 1, 2 :: real]" "i < length [0, 1 :: real]"
    then have "get2 sw j i = Fin 0" using vals pt [of i j] by simp
    then show "\<not> np_eq (get2 sw j i) (Fin 1)" by (simp add: np_eq_def)
  qed
  from all_cells [OF ml this] have c: "np_count (array2_eq1 sw) = 0"
    unfolding array2_eq1_def by (rule count0_I)
  have sh': "shape sw = (3, 2)" using sh by simp
  show ?thesis
    by (rule exI [of _ sw], rule exI [of _ rs]) (simp add: run sh' c)
qed

text \<open>
  Claim C7, as it is written, fails: \<open>analyze_geometry\<close> does not fail on an empty
  manifold. After the scan above, in which no grid point is resonant, it returns a dict
  of four entries, without the means and standard deviations.
\<close>

theorem empty_manifold_counterexample:
  "analyze_geometry
     (fst (snd (scan_2d (LatencyFreeScanner_init parabola_model [Fin 1000] None None None)
                  (0, 1) (0, 2) (2, 3))))
   = Inr [''n_resonant_points'' \<mapsto> PyInt 0,
          ''total_points'' \<mapsto> PyInt 6,
          ''resonance_fraction'' \<mapsto> PyFloat (Fin 0),
          ''manifold_size'' \<mapsto> PyInt 0]"
proof -
  from far_scan obtain sw rs where
    st: "fst (snd (scan_2d (LatencyFreeScanner_init parabola_model [Fin 1000] None None None)
                 (0, 1) (0, 2) (2, 3)))
       = (LatencyFreeScanner_init parabola_model [Fin 1000] None None None)
           \<lparr> grid_points := Some (fst (np_meshgrid [0, 1] [0, 1, 2]), snd (np_meshgrid [0, 1] [0, 1, 2])),
             switch_values := Some sw, resonance_values := Some rs \<rparr>"
    and sh: "shape sw = (3, 2)" and c: "np_count (array2_eq1 sw) = 0"
    by blast
  show ?thesis
    unfolding st
    by (subst analyze_geometry_empty [where sv = sw and ga = "fst (np_meshgrid [0, 1] [0, 1, 2])"
          and gb = "snd (np_meshgrid [0, 1] [0, 1, 2])"])
       (simp_all add: sh c meshgrid_shape array2_size_def)
qed

text \<open>
  Claim C7, amended. Given a switch field with no resonant point, the summaries do not
  fail. \<open>analyze_geometry\<close>, on a scanner whose grid has the shape of its switch field,
  returns a dict of exactly four entries, the number of resonant points 0, the number of
  grid points, their quotient and the manifold size 0; it has no entry for a mean or a
  standard deviation. \<open>find_dipole_structure\<close>, when one of its two fields has no resonant
  point and the other has the shape of the grids, returns its dict with the pole of the
  empty field \<open>None\<close>, and distance, angle and overlap \<open>None\<close>.
\<close>

theorem empty_manifold_summary:
  "(switch_values self = Some sv \<and> grid_points self = Some (ga, gb)
      \<and> shape ga = shape sv \<and> shape gb = shape sv \<and> np_count (array2_eq1 sv) = 0 \<longrightarrow>
      analyze_geometry self =
        Inr [''n_resonant_points'' \<mapsto> PyInt 0,
             ''total_points'' \<mapsto> PyInt (int (array2_size sv)),
             ''resonance_fraction'' \<mapsto> PyFloat (np_divide (Fin 0) (Fin (real (array2_size sv)))),
             ''manifold_size'' \<mapsto> PyInt 0])
   \<and> (np_count (array2_eq1 planck) = 0 \<and> shape gH = shape sn \<and> shape gO = shape sn \<longrightarrow>
        (\<exists>p. find_dipole_structure planck sn gH gO
               = Inr \<lparr> planck_pole = None, supernova_pole = p,
                       dipole_distance = None, dipole_angle = None, overlap = None \<rparr>))
   \<and> (np_count (array2_eq1 sn') = 0 \<and> shape gH' = shape planck' \<and> shape gO' = shape planck' \<longrightarrow>
        (\<exists>p. find_dipole_structure planck' sn' gH' gO'
               = Inr \<lparr> planck_pole = p, supernova_pole = None,
                       dipole_distance = None, dipole_angle = None, overlap = None \<rparr>))"
  using analyze_geometry_empty [of self sv ga gb]
    dipole_planck_empty [of planck gH sn gO] dipole_supernova_empty [of sn' gH' planck' gO']
  by blast

text \<open>
  The scanner after the scan in which nothing resonates, and two switch fields of zeros
  over its grid.
\<close>

theorem empty_manifold_summary_witness:
  "(\<exists>r. analyze_geometry
           (fst (snd (scan_2d (LatencyFreeScanner_init parabola_model [Fin 1000] None None None)
                        (0, 1) (0, 2) (2, 3)))) = Inr r
        \<and> dom r = {''n_resonant_points'', ''total_points'', ''resonance_fraction'', ''manifold_size''}
        \<and> r ''manifold_size'' = Some (PyInt 0))
   \<and> np_count (array2_eq1 (np_zeros_like (fst (np_meshgrid [0, 1 :: real] [0, 1, 2])))) = 0
   \<and> (\<exists>p. find_dipole_structure
              (np_zeros_like (fst (np_meshgrid [0, 1 :: real] [0, 1, 2])))
              (np_zeros_like (fst (np_meshgrid [0, 1 :: real] [0, 1, 2])))
              (fst (np_meshgrid [0, 1] [0, 1, 2])) (snd (np_meshgrid [0, 1] [0, 1, 2]))
            = Inr \<lparr> planck_pole = None, supernova_pole = p,
                    dipole_distance = None, dipole_angle = None, overlap = None \<rparr>)
   \<and> (\<exists>p. find_dipole_structure
              (np_zeros_like (fst (np_meshgrid [0, 1 :: real] [0, 1, 2])))
              (np_zeros_like (fst (np_meshgrid [0, 1 :: real] [0, 1, 2])))
              (fst (np_meshgrid [0, 1] [0, 1, 2])) (snd (np_meshgrid [0, 1] [0, 1, 2]))
            = Inr \<lparr> planck_pole = p, supernova_pole = None,
                    dipole_distance = None, dipole_angle = None, overlap = None \<rparr>)"
proof -
  let ?g1 = "fst (np_meshgrid [0, 1 :: real] [0, 1, 2])"
  let ?g2 = "snd (np_meshgrid [0, 1 :: real] [0, 1, 2])"
  let ?z = "np_zeros_like ?g1"
  let ?S' = "fst (snd (scan_2d (LatencyFreeScanner_init parabola_model [Fin 1000] None None None)
                        (0, 1) (0, 2) (2, 3)))"
  from far_scan obtain sw rs where
    st: "?S' = (LatencyFreeScanner_init parabola_model [Fin 1000] None None None)
           \<lparr> grid_points := Some (?g1, ?g2), switch_values := Some sw, resonance_values := Some rs \<rparr>"
    and sh: "shape sw = (3, 2)" and c: "np_count (array2_eq1 sw) = 0"
    by blast
  have hyp: "switch_values ?S' = Some sw \<and> grid_points ?S' = Some (?g1, ?g2)
      \<and> shape ?g1 = shape sw \<and> shape ?g2 = shape sw \<and> np_count (array2_eq1 sw) = 0"
    unfolding st by (simp add: sh c meshgrid_shape)
  have "analyze_geometry ?S' =
        Inr [''n_resonant_points'' \<mapsto> PyInt 0,
             ''total_points'' \<mapsto> PyInt (int (array2_size sw)),
             ''resonance_fraction'' \<mapsto> PyFloat (np_divide (Fin 0) (Fin (real (array2_size sw)))),
             ''manifold_size'' \<mapsto> PyInt 0]"
    using empty_manifold_summary [where self = ?S' and sv = sw and ga = ?g1 and gb = ?g2,
        THEN conjunct1] hyp
    by blast
  then have one: "\<exists>r. analyze_geometry ?S' = Inr r
        \<and> dom r = {''n_resonant_points'', ''total_points'', ''resonance_fraction'', ''manifold_size''}
        \<and> r ''manifold_size'' = Some (PyInt 0)"
    by auto
  have z: "np_count (array2_eq1 ?z) = 0" by (rule zeros_like_count)
  have shz: "shape ?g1 = shape ?z \<and> shape ?g2 = shape ?z"
    by (simp add: zeros_like_shape meshgrid_shape)
  then have two: "\<exists>p. find_dipole_structure ?z ?z ?g1 ?g2
            = Inr \<lparr> planck_pole = None, supernova_pole = p,
                    dipole_distance = None, dipole_angle = None, overlap = None \<rparr>"
    using empty_manifold_summary [where planck = ?z and sn = ?z and gH = ?g1 and gO = ?g2,
        THEN conjunct2, THEN conjunct1] z
    by blast
  have three: "\<exists>p. find_dipole_structure ?z ?z ?g1 ?g2
            = Inr \<lparr> planck_pole = p, supernova_pole = None,
                    dipole_distance = None, dipole_angle = None, overlap = None \<rparr>"
    using empty_manifold_summary [where planck' = ?z and sn' = ?z and gH' = ?g1 and gO' = ?g2,
        THEN conjunct2, THEN conjunct2] z shz
    by blast
  show ?thesis using one z two three by blast
qed

end
